theory Spec2Isabelle
  imports Complex_Main "HOL-Library.Sublist" "HOL-Library.Log_Nat"
    "HOL-Library.Code_Target_Numeral"
begin

section \<open>JavaScript values\<close>

text \<open>
  A JavaScript string is a sequence of UTF-16 code units; the neutral display of the asset
  field uses U+2014, so strings are lists of code units and not lists of bytes.
  \<open>js\<close> turns an ASCII literal into such a list.
\<close>

type_synonym jsstring = "nat list"

definition js :: "string \<Rightarrow> jsstring" where
  "js s = map of_char s"

text \<open>
  A JavaScript number is \<open>NaN\<close>, an infinity or a finite binary64 value, here the
  rational it denotes (the type also holds the rationals that are no binary64 value; no
  operation yields one). The two zeros are one value: the engine never divides by an
  amount and never prints a zero it computed, so their sign cannot be observed there.
\<close>

datatype jsnum = NaN | PInf | NInf | Fin rat

text \<open>
  \<open>nearest\<close> rounds an exact result to binary64, as every arithmetic operation and
  every conversion of a literal does: to the nearest value with a significand of 53 bits
  at the binary exponent \<open>e\<close> of the argument (not below \<open>-1022\<close>, where the subnormal
  values lie), a tie going to the even significand, and to an infinity from
  \<open>2^1024 - 2^970\<close> on. \<open>ilog2\<close> is the binary exponent of a positive rational,
  \<open>2^e \<le> a < 2^(e+1)\<close>.
\<close>

definition ilog2 :: "rat \<Rightarrow> int" where
  "ilog2 a = (if 1 \<le> a then bitlen \<lfloor>a\<rfloor> - 1 else - bitlen (\<lceil>1 / a\<rceil> - 1))"

definition roundHalfEven :: "rat \<Rightarrow> int" where
  "roundHalfEven y =
     (let f = \<lfloor>y\<rfloor>; d = y - of_int f
      in if d < 1 / 2 then f else if 1 / 2 < d then f + 1 else if even f then f else f + 1)"

definition overflowThreshold :: rat where
  "overflowThreshold = 2 ^ 1024"

definition nearest :: "rat \<Rightarrow> jsnum" where
  "nearest q =
     (if q = 0 then Fin 0
      else (let a = \<bar>q\<bar>;
                e = max (ilog2 a) (- 1022);
                ulp = 2 powi (e - 52);
                r = of_int (roundHalfEven (a / ulp)) * ulp
            in if overflowThreshold \<le> r then (if q < 0 then NInf else PInf)
               else Fin (if q < 0 then - r else r)))"



fun num_lt :: "jsnum \<Rightarrow> jsnum \<Rightarrow> bool" where
  "num_lt NaN _ = False"
| "num_lt _ NaN = False"
| "num_lt PInf _ = False"
| "num_lt _ NInf = False"
| "num_lt NInf _ = True"
| "num_lt _ PInf = True"
| "num_lt (Fin a) (Fin b) = (a < b)"

definition num_le :: "jsnum \<Rightarrow> jsnum \<Rightarrow> bool" where
  "num_le a b = (a \<noteq> NaN \<and> b \<noteq> NaN \<and> (a = b \<or> num_lt a b))"

definition num_gt :: "jsnum \<Rightarrow> jsnum \<Rightarrow> bool" where
  "num_gt a b = num_lt b a"

text \<open>\<open>===\<close> on two numbers: \<open>NaN\<close> equals nothing, itself included.\<close>

definition num_eq :: "jsnum \<Rightarrow> jsnum \<Rightarrow> bool" where
  "num_eq a b = (a \<noteq> NaN \<and> a = b)"

fun sign_of :: "jsnum \<Rightarrow> int" where
  "sign_of NaN = 0"
| "sign_of PInf = 1"
| "sign_of NInf = - 1"
| "sign_of (Fin q) = (if q < 0 then - 1 else if q = 0 then 0 else 1)"

definition signed_inf :: "int \<Rightarrow> jsnum" where
  "signed_inf sg = (if sg < 0 then NInf else PInf)"

text \<open>The operator \<open>*\<close>.\<close>

fun num_mul :: "jsnum \<Rightarrow> jsnum \<Rightarrow> jsnum" where
  "num_mul NaN _ = NaN"
| "num_mul _ NaN = NaN"
| "num_mul (Fin a) (Fin b) = nearest (a * b)"
| "num_mul a b =
     (if sign_of a = 0 \<or> sign_of b = 0 then NaN else signed_inf (sign_of a * sign_of b))"

text \<open>The operator \<open>-\<close>.\<close>

fun num_sub :: "jsnum \<Rightarrow> jsnum \<Rightarrow> jsnum" where
  "num_sub NaN _ = NaN"
| "num_sub _ NaN = NaN"
| "num_sub (Fin a) (Fin b) = nearest (a - b)"
| "num_sub PInf PInf = NaN"
| "num_sub NInf NInf = NaN"
| "num_sub PInf _ = PInf"
| "num_sub NInf _ = NInf"
| "num_sub _ PInf = NInf"
| "num_sub _ NInf = PInf"

text \<open>The operator \<open>/\<close>; a zero divisor is the positive zero.\<close>

fun num_div :: "jsnum \<Rightarrow> jsnum \<Rightarrow> jsnum" where
  "num_div NaN _ = NaN"
| "num_div _ NaN = NaN"
| "num_div (Fin a) (Fin b) =
     (if b = 0 then (if a = 0 then NaN else signed_inf (sign_of (Fin a)))
      else nearest (a / b))"
| "num_div (Fin a) _ = Fin 0"
| "num_div a (Fin b) = signed_inf (sign_of a * (if b < 0 then - 1 else 1))"
| "num_div _ _ = NaN"

text \<open>\<open>Math.round\<close>: the nearest integer, a tie going up.\<close>

fun Math_round :: "jsnum \<Rightarrow> jsnum" where
  "Math_round (Fin q) = Fin (of_int \<lfloor>q + 1 / 2\<rfloor>)"
| "Math_round n = n"

text \<open>\<open>Math.pow(10, decimals)\<close> for the table's non-negative integer exponents.\<close>

definition Math_pow10 :: "nat \<Rightarrow> jsnum" where
  "Math_pow10 decimals = Fin (10 ^ decimals)"

datatype jsval =
    Undefined
  | Null
  | Bool bool
  | Num jsnum
  | BigInt int
  | Str jsstring
  | Symbol
  | Obj "jsval option"

text \<open>
  An object stands for what its conversion to a primitive (\<open>valueOf\<close>, then
  \<open>toString\<close>) yields: \<open>Obj (Some p)\<close> converts to \<open>p\<close>, \<open>Obj None\<close> throws while
  converting. A plain object \<open>{}\<close> is \<open>Obj (Some (Str (js ''[object Object]'')))\<close>, the
  empty array is \<open>Obj (Some (Str []))\<close>.
\<close>

datatype error = TypeError | Thrown

subsection \<open>Strings to numbers\<close>

definition isDigit :: "nat \<Rightarrow> bool" where
  "isDigit u = (48 \<le> u \<and> u \<le> 57)"

text \<open>White space and line terminators, as \<open>trim\<close> and the numeric grammar strip them.\<close>

definition isWhite :: "nat \<Rightarrow> bool" where
  "isWhite u = (u \<in> {9, 10, 11, 12, 13, 32, 160, 5760, 8232, 8233, 8239, 8287, 12288, 65279}
                \<or> (8192 \<le> u \<and> u \<le> 8202))"

definition trimStart :: "jsstring \<Rightarrow> jsstring" where
  "trimStart s = dropWhile isWhite s"

definition trim :: "jsstring \<Rightarrow> jsstring" where
  "trim s = rev (dropWhile isWhite (rev (dropWhile isWhite s)))"

definition digitsValue :: "nat \<Rightarrow> jsstring \<Rightarrow> nat" where
  "digitsValue radix ds = foldl (\<lambda>acc d. radix * acc + d) 0 ds"

definition decimalDigit :: "nat \<Rightarrow> nat" where
  "decimalDigit u = u - 48"

definition pow10 :: "int \<Rightarrow> rat" where
  "pow10 e = (if 0 \<le> e then 10 ^ nat e else 1 / 10 ^ nat (- e))"

text \<open>
  The exponent part of a decimal literal: \<open>e\<close> or \<open>E\<close>, an optional sign, at least one
  digit. Without a complete exponent nothing is consumed.
\<close>

definition scanExponent :: "jsstring \<Rightarrow> int \<times> jsstring" where
  "scanExponent s =
     (case s of
        [] \<Rightarrow> (0, s)
      | c # r \<Rightarrow>
          if c = 101 \<or> c = 69 then
            (let neg = (r \<noteq> [] \<and> hd r = 45);
                 r' = (if r \<noteq> [] \<and> (hd r = 45 \<or> hd r = 43) then tl r else r);
                 ds = takeWhile isDigit r'
             in if ds = [] then (0, s)
                else ((if neg then - 1 else 1) * int (digitsValue 10 (map decimalDigit ds)),
                      dropWhile isDigit r'))
          else (0, s))"

text \<open>
  An unsigned decimal literal at the start of the string: digits, an optional point with
  digits, an optional exponent; at least one digit before or after the point. The result
  is the literal's exact value and the rest of the string.
\<close>

definition scanUnsigned :: "jsstring \<Rightarrow> (rat \<times> jsstring) option" where
  "scanUnsigned s =
     (let ip = takeWhile isDigit s;
          r1 = dropWhile isDigit s;
          hasDot = (r1 \<noteq> [] \<and> hd r1 = 46);
          fp = (if hasDot then takeWhile isDigit (tl r1) else []);
          r2 = (if hasDot then dropWhile isDigit (tl r1) else r1)
      in if ip = [] \<and> fp = [] then None
         else (let mant = of_nat (digitsValue 10 (map decimalDigit (ip @ fp))) / 10 ^ length fp;
                   ex = scanExponent r2
               in Some (mant * pow10 (fst ex), snd ex)))"

definition scanSigned :: "jsstring \<Rightarrow> (jsnum \<times> jsstring) option" where
  "scanSigned s =
     (let neg = (s \<noteq> [] \<and> hd s = 45);
          r = (if s \<noteq> [] \<and> (hd s = 45 \<or> hd s = 43) then tl s else s)
      in if prefix (js ''Infinity'') r then Some (if neg then NInf else PInf, drop 8 r)
         else (case scanUnsigned r of
                 None \<Rightarrow> None
               | Some (q, rest) \<Rightarrow> Some (nearest (if neg then - q else q), rest)))"

text \<open>Literals with a radix prefix: \<open>0x\<close>, \<open>0o\<close>, \<open>0b\<close> in either case, no sign.\<close>

definition radixDigit :: "nat \<Rightarrow> nat option" where
  "radixDigit u =
     (if 48 \<le> u \<and> u \<le> 57 then Some (u - 48)
      else if 97 \<le> u \<and> u \<le> 102 then Some (u - 87)
      else if 65 \<le> u \<and> u \<le> 70 then Some (u - 55)
      else None)"

definition radixOf :: "nat \<Rightarrow> nat option" where
  "radixOf u =
     (if u = 120 \<or> u = 88 then Some 16
      else if u = 111 \<or> u = 79 then Some 8
      else if u = 98 \<or> u = 66 then Some 2
      else None)"

definition radixLiteral :: "jsstring \<Rightarrow> jsnum option" where
  "radixLiteral s =
     (case s of
        z # x # ds \<Rightarrow>
          (case radixOf x of
             None \<Rightarrow> None
           | Some radix \<Rightarrow>
               if z = 48 then
                 Some (if ds \<noteq> [] \<and> list_all (\<lambda>d. case radixDigit d of None \<Rightarrow> False | Some v \<Rightarrow> v < radix) ds
                       then nearest (of_nat (digitsValue radix (map (\<lambda>d. the (radixDigit d)) ds)))
                       else NaN)
               else None)
      | _ \<Rightarrow> None)"

text \<open>\<open>Number(s)\<close> for a string: the whole trimmed string must be one literal.\<close>

definition stringToNumber :: "jsstring \<Rightarrow> jsnum" where
  "stringToNumber s =
     (let t = trim s
      in if t = [] then Fin 0
         else (case radixLiteral t of
                 Some n \<Rightarrow> n
               | None \<Rightarrow>
                   (case scanSigned t of
                      Some (n, []) \<Rightarrow> n
                    | _ \<Rightarrow> NaN)))"

text \<open>\<open>parseFloat(s)\<close>: the longest decimal literal at the start, after white space.\<close>

definition parseFloat :: "jsstring \<Rightarrow> jsnum" where
  "parseFloat s = (case scanSigned (trimStart s) of Some (n, _) \<Rightarrow> n | None \<Rightarrow> NaN)"

text \<open>\<open>Number(val)\<close>. Converting a symbol throws, and so does an object whose conversion
  to a primitive throws or yields no primitive.\<close>

fun toNumber :: "jsval \<Rightarrow> error + jsnum" where
  "toNumber Undefined = Inr NaN"
| "toNumber Null = Inr (Fin 0)"
| "toNumber (Bool b) = Inr (Fin (if b then 1 else 0))"
| "toNumber (Num n) = Inr n"
| "toNumber (BigInt i) = Inr (nearest (of_int i))"
| "toNumber (Str s) = Inr (stringToNumber s)"
| "toNumber Symbol = Inl TypeError"
| "toNumber (Obj None) = Inl Thrown"
| "toNumber (Obj (Some (Obj _))) = Inl TypeError"
| "toNumber (Obj (Some p)) = toNumber p"

section \<open>The amount engine\<close>

text \<open>The table \<open>PRECISION\<close>.\<close>

definition PRECISION_fiat :: nat where "PRECISION_fiat = 2"
definition PRECISION_eth :: nat where "PRECISION_eth = 6"
definition PRECISION_btc :: nat where "PRECISION_btc = 8"
definition PRECISION_sol :: nat where "PRECISION_sol = 6"
definition PRECISION_default :: nat where "PRECISION_default = 0"

text \<open>\<open>safeParse\<close> returns a number or \<open>null\<close> (here \<open>None\<close>).\<close>

definition safeParse :: "jsval \<Rightarrow> error + jsnum option" where
  "safeParse val =
     (if val = Null \<or> val = Undefined \<or> val = Str [] then Inr None
      else (case toNumber val of
              Inl e \<Rightarrow> Inl e
            | Inr num \<Rightarrow>
                if num = NaN then Inr None
                else if num_lt num (Fin 0) then Inr (Some (Fin 0))
                else Inr (Some num)))"

definition safeRound :: "jsnum option \<Rightarrow> nat \<Rightarrow> jsnum option" where
  "safeRound value decimals =
     (case value of
        None \<Rightarrow> None
      | Some v \<Rightarrow>
          (let multiplier = Math_pow10 decimals
           in Some (num_div (Math_round (num_mul v multiplier)) multiplier)))"

text \<open>A number or \<open>null\<close> handed on as an argument.\<close>

definition numOrNull :: "jsnum option \<Rightarrow> jsval" where
  "numOrNull r = (case r of None \<Rightarrow> Null | Some n \<Rightarrow> Num n)"

definition roundFiat :: "jsval \<Rightarrow> error + jsnum option" where
  "roundFiat amount =
     (case safeParse amount of
        Inl e \<Rightarrow> Inl e
      | Inr val \<Rightarrow> if val = None then Inr None else Inr (safeRound val PRECISION_fiat))"

text \<open>
  \<open>toLowerCase\<close> on the letters A to Z; other code units stay. \<open>includes\<close> is the search
  for a contiguous occurrence.
\<close>

definition toLowerCase :: "jsstring \<Rightarrow> jsstring" where
  "toLowerCase s = map (\<lambda>u. if 65 \<le> u \<and> u \<le> 90 then u + 32 else u) s"

fun includes_str :: "jsstring \<Rightarrow> jsstring \<Rightarrow> bool" where
  "includes_str [] sub = (sub = [])"
| "includes_str (x # xs) sub = (prefix sub (x # xs) \<or> includes_str xs sub)"

text \<open>
  The precision \<open>roundAsset\<close> picks for a chain. The chain is a string or \<open>null\<close>
  (the empty string is falsy), as the documented signature has it and as the screen passes
  it from \<open>APP_STATE.chain\<close>; a truthy chain of another type, on which
  \<open>chain.toLowerCase()\<close> throws a \<open>TypeError\<close>, is outside this type, and no statement
  below speaks of it.
\<close>

definition decimalsFor :: "jsstring option \<Rightarrow> nat" where
  "decimalsFor chain =
     (case chain of
        None \<Rightarrow> PRECISION_default
      | Some ch \<Rightarrow>
          if ch = [] then PRECISION_default
          else (let c = toLowerCase ch
                in if includes_str c (js ''eth'') then PRECISION_eth
                   else if includes_str c (js ''btc'') \<or> includes_str c (js ''bitcoin'') then PRECISION_btc
                   else if includes_str c (js ''sol'') then PRECISION_sol
                   else PRECISION_default))"

definition roundAsset :: "jsval \<Rightarrow> jsstring option \<Rightarrow> error + jsnum option" where
  "roundAsset amount chain =
     (case safeParse amount of
        Inl e \<Rightarrow> Inl e
      | Inr val \<Rightarrow> if val = None then Inr None else Inr (safeRound val (decimalsFor chain)))"

definition deriveFromFiat :: "jsval \<Rightarrow> jsval \<Rightarrow> jsstring option \<Rightarrow> error + jsnum option" where
  "deriveFromFiat fiatAmount assetPriceUSD chain =
     (case safeParse fiatAmount of
        Inl e \<Rightarrow> Inl e
      | Inr amount \<Rightarrow>
          (case safeParse assetPriceUSD of
             Inl e \<Rightarrow> Inl e
           | Inr price \<Rightarrow>
               (case (amount, price) of
                  (Some a, Some p) \<Rightarrow>
                    if num_le p (Fin 0) then Inr None
                    else if num_eq a (Fin 0) then Inr (Some (Fin 0))
                    else (let derived = num_div a p in roundAsset (Num derived) chain)
                | _ \<Rightarrow> Inr None)))"

definition deriveFromAsset :: "jsval \<Rightarrow> jsval \<Rightarrow> error + jsnum option" where
  "deriveFromAsset assetAmount assetPriceUSD =
     (case safeParse assetAmount of
        Inl e \<Rightarrow> Inl e
      | Inr amount \<Rightarrow>
          (case safeParse assetPriceUSD of
             Inl e \<Rightarrow> Inl e
           | Inr price \<Rightarrow>
               (case (amount, price) of
                  (Some a, Some p) \<Rightarrow>
                    if num_le p (Fin 0) then Inr None
                    else if num_eq a (Fin 0) then Inr (Some (Fin 0))
                    else (let derived = num_mul a p in roundFiat (Num derived))
                | _ \<Rightarrow> Inr None)))"

section \<open>Numbers to strings\<close>

text \<open>
  The digits \<open>Number.prototype.toString\<close> prints for a finite value are those of the
  decimal with the fewest significant digits that rounds to the value, and of the one
  nearest the value when several of that length do.
\<close>

function natDigits :: "nat \<Rightarrow> jsstring" where
  "natDigits n = (if n < 10 then [48 + n] else natDigits (n div 10) @ [48 + n mod 10])"
  by pat_completeness auto
termination
  by (relation "measure id") auto

declare natDigits.simps [simp del]

definition padLeft :: "nat \<Rightarrow> jsstring \<Rightarrow> jsstring" where
  "padLeft k ds = replicate (k - length ds) 48 @ ds"

definition stripTrailingZeros :: "jsstring \<Rightarrow> jsstring" where
  "stripTrailingZeros ds = rev (dropWhile (\<lambda>c. c = 48) (rev ds))"

text \<open>
  A non-negative value in plain decimal notation with at most \<open>f\<close> fractional digits (a
  tie in the last one going to the even digit), the fraction without trailing zeros.
\<close>

definition decimalString :: "nat \<Rightarrow> rat \<Rightarrow> jsstring" where
  "decimalString f q =
     (let n = nat (roundHalfEven (q * 10 ^ f));
          fp = stripTrailingZeros (padLeft f (natDigits (n mod 10 ^ f)))
      in natDigits (n div 10 ^ f) @ (if fp = [] then [] else 46 # fp))"

text \<open>
  The decimal exponent \<open>e\<close> of a positive value, \<open>10^e \<le> q < 10^(e+1)\<close>; below 1 it is
  read off the value scaled by \<open>10^400\<close> (no positive binary64 value is below
  \<open>10^-324\<close>).
\<close>

definition decimalExponent :: "rat \<Rightarrow> int" where
  "decimalExponent q =
     (if 1 \<le> q then int (length (natDigits (nat \<lfloor>q\<rfloor>))) - 1
      else int (length (natDigits (nat \<lfloor>q * 10 ^ 400\<rfloor>))) - 1 - 400)"

text \<open>
  The two decimals of \<open>k\<close> significant digits that enclose a positive value, the nearer
  one first (of two equally near ones, the one with the even last digit); and the
  shortest decimal that rounds to the value. A binary64 value is recovered from 17
  digits; for a rational that is none, the search finds nothing and the value stands for
  itself.
\<close>

definition candidates :: "rat \<Rightarrow> nat \<Rightarrow> rat list" where
  "candidates x k =
     (let u = pow10 (decimalExponent x + 1 - int k);
          s = \<lfloor>x / u\<rfloor>;
          lo = of_int s * u;
          hi = of_int (s + 1) * u
      in if x - lo < hi - x \<or> (x - lo = hi - x \<and> even s) then [lo, hi] else [hi, lo])"

definition shortestDecimal :: "rat \<Rightarrow> rat" where
  "shortestDecimal x =
     (case find (\<lambda>c. nearest c = Fin x) (concat (map (candidates x) [1..<18])) of
        Some c \<Rightarrow> c
      | None \<Rightarrow> x)"

text \<open>\<open>Number.prototype.toString\<close>: plain notation from \<open>10^-6\<close> up to \<open>10^21\<close>,
  exponent notation outside. The shortest decimal has at most 17 significant digits, so
  30 fractional digits print it exactly.\<close>

definition positiveToString :: "rat \<Rightarrow> jsstring" where
  "positiveToString q =
     (let c = shortestDecimal q
      in if 1 / 10 ^ 6 \<le> c \<and> c < 10 ^ 21 then decimalString 30 c
         else (let e = decimalExponent c
               in decimalString 30 (c / pow10 e) @ [101] @ (if e < 0 then [45] else [43])
                  @ natDigits (nat \<bar>e\<bar>)))"

definition numberToString :: "jsnum \<Rightarrow> jsstring" where
  "numberToString n =
     (case n of
        NaN \<Rightarrow> js ''NaN''
      | PInf \<Rightarrow> js ''Infinity''
      | NInf \<Rightarrow> js ''-Infinity''
      | Fin q \<Rightarrow>
          if q = 0 then js ''0''
          else if q < 0 then 45 # positiveToString (- q)
          else positiveToString q)"

text \<open>\<open>toLocaleString('en-US', {useGrouping: false, maximumFractionDigits: 20})\<close>: the
  shortest decimal in plain notation, rounded to 20 fractional digits.\<close>

definition toLocaleString :: "jsnum \<Rightarrow> jsstring" where
  "toLocaleString n =
     (case n of
        NaN \<Rightarrow> js ''NaN''
      | PInf \<Rightarrow> [8734]
      | NInf \<Rightarrow> [45, 8734]
      | Fin q \<Rightarrow>
          if q = 0 then js ''0''
          else if q < 0 then 45 # decimalString 20 (shortestDecimal (- q))
          else decimalString 20 (shortestDecimal q))"

text \<open>\<open>toFixed(2)\<close>: two fractional digits, a tie going away from zero; from \<open>10^21\<close>
  on it is \<open>toString\<close>.\<close>

definition toFixed2 :: "jsnum \<Rightarrow> jsstring" where
  "toFixed2 n =
     (case n of
        Fin q \<Rightarrow>
          if 10 ^ 21 \<le> \<bar>q\<bar> then numberToString n
          else (let k = nat \<lfloor>\<bar>q\<bar> * 100 + 1 / 2\<rfloor>
                in (if q < 0 then [45] else [])
                   @ natDigits (k div 100) @ [46] @ padLeft 2 (natDigits (k mod 100)))
      | _ \<Rightarrow> numberToString n)"


section \<open>The send screen\<close>

text \<open>
  The two amount fields are DOM elements: \<open>#usdIndex\<close>, a text input, and the asset
  display, a \<open>div\<close> that is made editable in asset mode. \<open>content\<close> is the input's
  \<open>value\<close> or the div's \<open>textContent\<close>, \<open>stateNeutral\<close> the class
  \<open>state-neutral\<close>, \<open>fontSize\<close> the number of rem in the style property (\<open>None\<close> is
  the empty string).
\<close>

record field =
  content :: jsstring
  stateNeutral :: bool
  fontSize :: "jsnum option"
  readonly :: bool
  pointerEvents :: string
  contentEditable :: string
  inputmode :: "string option"
  role :: "string option"

datatype inputMode = FiatMode | AssetMode

datatype elem = UsdInput | AssetDisplay | Body

datatype side = LeftSide | RightSide

text \<open>
  The module's state objects and the part of the document the handlers touch:
  \<open>APP_STATE\<close>, \<open>DATA_STATE\<close>, \<open>VALIDATION_STATE\<close>, the two fields (\<open>None\<close> when
  the element is missing), the focused element (\<open>Body\<close> stands for any other element),
  the toast on display with its error flag, the asset field's \<open>limitWarned\<close> data
  attribute, the blocker's closure state with the overlay's \<open>position-left\<close> class, and
  the slider's drag state.
\<close>

record page =
  app_chain :: "jsstring option"
  app_asset :: "jsstring option"
  app_inputMode :: inputMode
  data_assetPriceUSD :: "jsnum option"
  validation_isAddressValid :: bool
  usdInput :: "field option"
  assetDisplay :: "field option"
  activeElement :: elem
  toast :: "(jsstring \<times> bool) option"
  limitWarned :: bool
  blockedSide :: side
  locked :: bool
  positionLeft :: bool
  isDragging :: bool
  startX :: rat
  knobTransition :: "string option"

definition MAX_ASSET_DIGITS :: nat where
  "MAX_ASSET_DIGITS = 17"

text \<open>The neutral display: U+2014, a space, U+2014.\<close>

definition NEUTRAL :: jsstring where
  "NEUTRAL = [8212, 32, 8212]"

subsection \<open>Chain families\<close>

text \<open>
  \<open>resolveChainFamily\<close>, which the screen documents as the single source of truth for
  the family of a chain: membership of the name in the list of the Ethereum family, then
  the two names of each other family, by strict equality; \<open>null\<close> for a falsy or unknown
  chain.
\<close>

definition ethereumFamily :: "jsstring list" where
  "ethereumFamily =
     [js ''Ethereum'', js ''Ethereum Mainnet'', js ''Arbitrum'', js ''Arbitrum One'',
      js ''Optimism'', js ''Base'', js ''Polygon'', js ''Polygon PoS'', js ''zkSync'',
      js ''zkSync Era'', js ''Linea'', js ''Scroll'', js ''Sepolia'', js ''Goerli'',
      js ''Holesky'']"

definition resolveChainFamily :: "jsstring option \<Rightarrow> jsstring option" where
  "resolveChainFamily chain =
     (case chain of
        None \<Rightarrow> None
      | Some ch \<Rightarrow>
          if ch = [] then None
          else if ch \<in> set ethereumFamily then Some (js ''ethereum'')
          else if ch = js ''Bitcoin'' \<or> ch = js ''Bitcoin Testnet'' then Some (js ''bitcoin'')
          else if ch = js ''Solana'' \<or> ch = js ''Solana Devnet'' then Some (js ''solana'')
          else None)"

subsection \<open>The mirror synchronizer\<close>

text \<open>
  \<open>updateNumericScaling\<close>: the base size up to six characters, then 0.12 rem less per
  character, not below 1.1 rem. The three constants are the binary64 values of their
  literals; a length is a whole number below \<open>2^53\<close>.
\<close>

definition BASE_SIZE_REM :: jsnum where
  "BASE_SIZE_REM = nearest (22 / 10)"

definition MIN_SIZE_REM :: jsnum where
  "MIN_SIZE_REM = nearest (11 / 10)"

definition THRESHOLD :: nat where
  "THRESHOLD = 6"

definition DECAY_PER_CHAR :: jsnum where
  "DECAY_PER_CHAR = nearest (12 / 100)"

definition updateNumericScaling :: "field \<Rightarrow> field" where
  "updateNumericScaling element =
     (let len = length (content element)
      in if len \<le> THRESHOLD then element\<lparr>fontSize := Some BASE_SIZE_REM\<rparr>
         else (let overflow = len - THRESHOLD;
                   newSize = num_sub BASE_SIZE_REM (num_mul (Fin (of_nat overflow)) DECAY_PER_CHAR)
               in element\<lparr>fontSize :=
                    Some (if num_lt newSize MIN_SIZE_REM then MIN_SIZE_REM else newSize)\<rparr>))"

text \<open>The values \<open>setVisualValue\<close> is called with: \<open>null\<close>, a number, a string.\<close>

datatype shown = ShownNull | ShownNum jsnum | ShownStr jsstring

definition safeDecimalString :: "shown \<Rightarrow> jsstring" where
  "safeDecimalString num =
     (case num of
        ShownNull \<Rightarrow> []
      | ShownStr str \<Rightarrow> str
      | ShownNum n \<Rightarrow>
          (let str = numberToString n
           in if includes_str str (js ''e'') then toLocaleString n else str))"

text \<open>\<open>split(c)\<close>: the pieces between the occurrences of \<open>c\<close>.\<close>

fun splitOn :: "nat \<Rightarrow> jsstring \<Rightarrow> jsstring list" where
  "splitOn c [] = [[]]"
| "splitOn c (x # xs) =
     (if x = c then [] # splitOn c xs
      else (case splitOn c xs of
              [] \<Rightarrow> [[x]]
            | p # ps \<Rightarrow> (x # p) # ps))"

text \<open>
  \<open>setVisualValue(target, val, isNeutral)\<close>. The caret is not part of the state: the
  synchronizer writes the asset field only when it is not focused, and the fiat field is
  an input, so the branch that restores the caret is never taken from there.
\<close>

definition setVisualValue :: "field \<Rightarrow> shown \<Rightarrow> bool \<Rightarrow> field" where
  "setVisualValue target val isNeutral =
     (if isNeutral
      then target\<lparr>content := NEUTRAL, stateNeutral := True, fontSize := None\<rparr>
      else
        (let cleanVal = safeDecimalString val;
             displayVal =
               (if includes_str cleanVal [46] then
                  (case splitOn 46 cleanVal of
                     p0 # p1 # _ \<Rightarrow>
                       if 6 < length p1 then p0 @ [46] @ take 6 p1 else cleanVal
                   | _ \<Rightarrow> cleanVal)
                else cleanVal)
         in updateNumericScaling (target\<lparr>content := displayVal, stateNeutral := False\<rparr>)))"

text \<open>\<open>replace(pattern, replacement)\<close> with a string pattern: the first occurrence.\<close>

fun replaceFirst :: "jsstring \<Rightarrow> jsstring \<Rightarrow> jsstring \<Rightarrow> jsstring" where
  "replaceFirst [] pat rep = (if pat = [] then rep else [])"
| "replaceFirst (x # xs) pat rep =
     (if prefix pat (x # xs) then rep @ drop (length pat) (x # xs)
      else x # replaceFirst xs pat rep)"

text \<open>Truthiness of a string or \<open>null\<close>, and of a number or \<open>null\<close>.\<close>

definition truthyString :: "jsstring option \<Rightarrow> bool" where
  "truthyString v = (case v of None \<Rightarrow> False | Some str \<Rightarrow> str \<noteq> [])"

definition truthyNumber :: "jsnum option \<Rightarrow> bool" where
  "truthyNumber v = (case v of None \<Rightarrow> False | Some n \<Rightarrow> n \<noteq> NaN \<and> n \<noteq> Fin 0)"

text \<open>The test \<open>derived !== null && derived > 0\<close>, with the number when it holds.\<close>

definition positive :: "jsnum option \<Rightarrow> jsnum option" where
  "positive derived =
     (case derived of
        None \<Rightarrow> None
      | Some n \<Rightarrow> if num_gt n (Fin 0) then Some n else None)"

text \<open>
  \<open>updateAmountMirror\<close>. Both derivations are called with a string and the stored
  price, so they cannot throw; the model returns the page as it is in that case, as a
  throw before the first write would leave it. The debug hook the function publishes on
  \<open>window\<close> is not part of the page.
\<close>

definition updateAmountMirror :: "page \<Rightarrow> page" where
  "updateAmountMirror s =
     (if \<not> truthyString (app_asset s) \<or> \<not> truthyNumber (data_assetPriceUSD s) then s
      else
        (case (usdInput s, assetDisplay s) of
           (Some usd, Some ad) \<Rightarrow>
             (if app_inputMode s = FiatMode then
                (let fiatVal = content usd
                 in case deriveFromFiat (Str fiatVal) (numOrNull (data_assetPriceUSD s))
                           (app_chain s) of
                      Inl e \<Rightarrow> s
                    | Inr derived \<Rightarrow>
                        (let usd' = updateNumericScaling usd;
                             isAssetBeingEdited = (activeElement s = AssetDisplay);
                             ad' =
                               (case positive derived of
                                  Some d \<Rightarrow>
                                    (if \<not> isAssetBeingEdited
                                     then setVisualValue ad (ShownNum d) False
                                     else ad)
                                | None \<Rightarrow>
                                    if (fiatVal = [] \<or> num_eq (parseFloat fiatVal) (Fin 0))
                                       \<and> \<not> validation_isAddressValid s then
                                      (if \<not> isAssetBeingEdited
                                       then setVisualValue ad ShownNull True
                                       else ad)
                                    else
                                      (if \<not> isAssetBeingEdited
                                       then setVisualValue ad (ShownStr (js ''0'')) False
                                       else ad))
                         in s\<lparr>usdInput := Some usd', assetDisplay := Some ad'\<rparr>))
              else
                (let assetVal = trim (replaceFirst (content ad) NEUTRAL [])
                 in case deriveFromAsset (Str assetVal) (numOrNull (data_assetPriceUSD s)) of
                      Inl e \<Rightarrow> s
                    | Inr derived \<Rightarrow>
                        (let ad' = updateNumericScaling ad
                         in case derived of
                              Some d \<Rightarrow>
                                s\<lparr>usdInput := Some (setVisualValue usd (ShownStr (toFixed2 d)) False),
                                  assetDisplay := Some (ad'\<lparr>stateNeutral := False\<rparr>)\<rparr>
                            | None \<Rightarrow>
                                s\<lparr>usdInput := Some (setVisualValue usd (ShownStr []) False),
                                  assetDisplay := Some ad'\<rparr>)))
         | _ \<Rightarrow> s))"

subsection \<open>Interaction gating\<close>

datatype eventType = Click | Mousedown | Keydown | Focus

definition showToast :: "jsstring \<Rightarrow> bool \<Rightarrow> page \<Rightarrow> page" where
  "showToast message isError s = s\<lparr>toast := Some (message, isError)\<rparr>"

definition blur :: "elem \<Rightarrow> page \<Rightarrow> page" where
  "blur el s = (if activeElement s = el then s\<lparr>activeElement := Body\<rparr> else s)"

text \<open>
  \<open>handleIntent\<close>, registered in the capture phase on both fields for the four event
  types. The result says whether the event was cancelled (\<open>preventDefault\<close> and
  \<open>stopPropagation\<close>).
\<close>

definition handleIntent :: "eventType \<Rightarrow> elem \<Rightarrow> page \<Rightarrow> bool \<times> page" where
  "handleIntent ty target s =
     (if validation_isAddressValid s then (False, s)
      else
        (let s1 = blur target s
         in (True,
             if ty \<noteq> Focus then showToast (js ''Enter wallet address first'') True s1
             else s1)))"

text \<open>
  \<open>startDrag\<close> on the slider knob, for a \<open>mousedown\<close> or a \<open>touchstart\<close> with the
  pointer's \<open>clientX\<close>. The result says whether \<open>preventDefault\<close> was called.
\<close>

datatype dragEvent = MouseDownAt rat | TouchStartAt rat

definition startDrag :: "dragEvent \<Rightarrow> page \<Rightarrow> bool \<times> page" where
  "startDrag e s =
     (if \<not> validation_isAddressValid s
      then (True, showToast (js ''Enter wallet address first'') True s)
      else
        (case e of
           MouseDownAt x \<Rightarrow>
             (True, s\<lparr>isDragging := True, startX := x, knobTransition := Some ''none''\<rparr>)
         | TouchStartAt x \<Rightarrow>
             (False, s\<lparr>isDragging := True, startX := x, knobTransition := Some ''none''\<rparr>)))"

subsection \<open>The authority toggle\<close>

text \<open>
  \<open>focus()\<close> on a field: the element becomes the active one and its \<open>focus\<close> listener,
  the gate above, runs.
\<close>

definition focusElement :: "elem \<Rightarrow> page \<Rightarrow> page" where
  "focusElement el s = snd (handleIntent Focus el (s\<lparr>activeElement := el\<rparr>))"

text \<open>
  \<open>updateBlockedState\<close> reads \<open>inputUSD\<close> without a null check: a missing fiat input
  is a \<open>TypeError\<close>.
\<close>

definition updateBlockedState :: "page \<Rightarrow> error + page" where
  "updateBlockedState s =
     (let s1 = s\<lparr>positionLeft := (blockedSide s = LeftSide)\<rparr>
      in case usdInput s1 of
           None \<Rightarrow> Inl TypeError
         | Some usd \<Rightarrow>
             if blockedSide s1 = LeftSide then
               (let s2 = s1\<lparr>usdInput := Some (usd\<lparr>readonly := True, pointerEvents := ''none''\<rparr>)\<rparr>
                in case assetDisplay s2 of
                     None \<Rightarrow> Inr s2
                   | Some ad \<Rightarrow>
                       (let ad1 = ad\<lparr>contentEditable := ''true'', pointerEvents := ''auto'',
                                     inputmode := Some ''decimal'', role := Some ''textbox''\<rparr>;
                            s3 = focusElement AssetDisplay (s2\<lparr>assetDisplay := Some ad1\<rparr>);
                            ad2 = (if includes_str (content ad1) [8212]
                                   then ad1\<lparr>content := [], stateNeutral := False\<rparr>
                                   else ad1)
                        in Inr (s3\<lparr>assetDisplay := Some (updateNumericScaling ad2)\<rparr>)))
             else
               (let s2 = s1\<lparr>usdInput := Some (usd\<lparr>readonly := False, pointerEvents := ''auto''\<rparr>)\<rparr>;
                    s3 = (case assetDisplay s2 of
                            None \<Rightarrow> s2
                          | Some ad \<Rightarrow>
                              s2\<lparr>assetDisplay :=
                                    Some (ad\<lparr>contentEditable := ''false'', inputmode := None,
                                             role := None\<rparr>)\<rparr>)
                in Inr (focusElement UsdInput s3)))"

text \<open>\<open>handleSingleClick\<close> on the blocker overlay: the toggle of the authority mode.\<close>

definition handleSingleClick :: "page \<Rightarrow> error + page" where
  "handleSingleClick s =
     (if locked s then Inr s
      else
        (let newSide = (if blockedSide s = RightSide then LeftSide else RightSide)
         in updateBlockedState
              (s\<lparr>blockedSide := newSide,
                 app_inputMode := (if newSide = LeftSide then AssetMode else FiatMode)\<rparr>)))"

subsection \<open>Input into the asset field\<close>

datatype inputType = InsertText | InsertFromPaste | InsertCompositionText | OtherInputType

text \<open>
  A \<open>beforeinput\<close> event on the asset field: its type, its \<open>data\<close>, and the selection
  its text would replace (start and length within the field's text; for composed text
  the selection is what was composed so far).
\<close>

record inputEvent =
  inputType :: inputType
  data :: "jsstring option"
  selectionStart :: nat
  selectionLength :: nat

text \<open>\<open>replace(/[^0-9.]/g, '')\<close> and \<open>replace(/\./g, '')\<close>.\<close>

definition sanitize :: "jsstring \<Rightarrow> jsstring" where
  "sanitize t = filter (\<lambda>u. isDigit u \<or> u = 46) t"

definition removeDots :: "jsstring \<Rightarrow> jsstring" where
  "removeDots t = filter (\<lambda>u. u \<noteq> 46) t"

text \<open>
  The \<open>beforeinput\<close> listener. The result says whether the insertion was prevented. The
  warning flag is cleared again by a timer two seconds later (\<open>limitWarnedExpired\<close>).
\<close>

definition assetBeforeInput :: "inputEvent \<Rightarrow> page \<Rightarrow> bool \<times> page" where
  "assetBeforeInput e s =
     (case assetDisplay s of
        None \<Rightarrow> (False, s)
      | Some ad \<Rightarrow>
          if app_inputMode s \<noteq> AssetMode then (False, s)
          else if inputType e \<noteq> InsertText \<and> inputType e \<noteq> InsertFromPaste then (False, s)
          else
            (let currentText = sanitize (content ad);
                 currentDigitCount = length (removeDots currentText);
                 incomingText = sanitize (case data e of None \<Rightarrow> [] | Some d \<Rightarrow> d);
                 incomingDigitCount = length (removeDots incomingText)
             in if MAX_ASSET_DIGITS < currentDigitCount + incomingDigitCount then
                  (True,
                   if \<not> limitWarned s
                   then (showToast (js ''Maximum precision reached'') True s)\<lparr>limitWarned := True\<rparr>
                   else s)
                else (False, s)))"

definition limitWarnedExpired :: "page \<Rightarrow> page" where
  "limitWarnedExpired s = s\<lparr>limitWarned := False\<rparr>"

text \<open>The browser's own action for an insertion that was not prevented.\<close>

definition insertAtSelection :: "inputEvent \<Rightarrow> field \<Rightarrow> field" where
  "insertAtSelection e el =
     el\<lparr>content := take (selectionStart e) (content el)
                    @ (case data e of None \<Rightarrow> [] | Some d \<Rightarrow> d)
                    @ drop (selectionStart e + selectionLength e) (content el)\<rparr>"

text \<open>The \<open>input\<close> listener: sanitize, run the synchronizer, rescale.\<close>

definition assetInput :: "page \<Rightarrow> page" where
  "assetInput s =
     (case assetDisplay s of
        None \<Rightarrow> s
      | Some ad \<Rightarrow>
          if app_inputMode s \<noteq> AssetMode then s
          else
            (let clean = sanitize (content ad);
                 s1 = (if clean \<noteq> content ad
                       then s\<lparr>assetDisplay := Some (ad\<lparr>content := clean\<rparr>)\<rparr>
                       else s);
                 s2 = updateAmountMirror s1
             in case assetDisplay s2 of
                  None \<Rightarrow> s2
                | Some ad2 \<Rightarrow> s2\<lparr>assetDisplay := Some (updateNumericScaling ad2)\<rparr>))"

text \<open>One insertion: the \<open>beforeinput\<close> listener, the browser's insertion unless it was
  prevented, the \<open>input\<close> listener.\<close>

definition insertion :: "inputEvent \<Rightarrow> page \<Rightarrow> page" where
  "insertion e s =
     (case assetBeforeInput e s of
        (True, s1) \<Rightarrow> s1
      | (False, s1) \<Rightarrow>
          (case assetDisplay s1 of
             None \<Rightarrow> s1
           | Some ad \<Rightarrow> assetInput (s1\<lparr>assetDisplay := Some (insertAtSelection e ad)\<rparr>)))"

text \<open>The digit count of a field's text, the separator and any other character excluded.\<close>

definition digitCount :: "jsstring \<Rightarrow> nat" where
  "digitCount t = length (filter isDigit t)"

definition assetText :: "page \<Rightarrow> jsstring" where
  "assetText s = (case assetDisplay s of None \<Rightarrow> [] | Some ad \<Rightarrow> content ad)"

definition fiatText :: "page \<Rightarrow> jsstring" where
  "fiatText s = (case usdInput s of None \<Rightarrow> [] | Some usd \<Rightarrow> content usd)"

text \<open>A run of insertions, in order.\<close>

definition insertions :: "inputEvent list \<Rightarrow> page \<Rightarrow> page" where
  "insertions es s = fold insertion es s"

subsection \<open>The page on entry\<close>

text \<open>
  The state objects as the module declares them, the fields as \<open>initSendUI\<close> leaves them
  (the fiat input empty, the asset display neutral), the blocker on the right.
\<close>

definition emptyField :: field where
  "emptyField =
     \<lparr>content = [], stateNeutral = False, fontSize = None, readonly = False,
      pointerEvents = [], contentEditable = ''inherit'', inputmode = None, role = None\<rparr>"

definition initialPage :: page where
  "initialPage =
     \<lparr>app_chain = None, app_asset = None, app_inputMode = FiatMode,
      data_assetPriceUSD = None, validation_isAddressValid = False,
      usdInput = Some emptyField,
      assetDisplay = Some (emptyField\<lparr>content := NEUTRAL, stateNeutral := True\<rparr>),
      activeElement = Body, toast = None, limitWarned = False,
      blockedSide = RightSide, locked = False, positionLeft = False,
      isDragging = False, startX = 0, knobTransition = None\<rparr>"

subsection \<open>Pages of the specification's scenarios\<close>

text \<open>
  A session on Ethereum at the stub price 2250.50 with a valid address: 100 dollars typed
  and the asset field still neutral (scenario 5); the asset field focused in mid-edit
  during fiat mode (scenario 6); both fields filled; asset mode with an empty asset
  field, and the same page for a valid address from which no asset is detected, so that
  chain, asset and price are missing; the first session with the chain Arbitrum One picked in the chain overlay; asset mode with 17 digits in the field
  and the key 8 pressed at its end (scenario 4), as typed text and as text composed by an
  input method.
\<close>

definition sessionPage :: page where
  "sessionPage =
     initialPage\<lparr>app_chain := Some (js ''Ethereum''), app_asset := Some (js ''eth''),
                 data_assetPriceUSD := Some (Fin (4501 / 2)),
                 validation_isAddressValid := True,
                 usdInput := Some (emptyField\<lparr>content := js ''100''\<rparr>)\<rparr>"

definition focusConflictPage :: page where
  "focusConflictPage =
     initialPage\<lparr>app_chain := Some (js ''Ethereum''), app_asset := Some (js ''eth''),
                 data_assetPriceUSD := Some (Fin (4501 / 2)),
                 validation_isAddressValid := True,
                 usdInput := Some (emptyField\<lparr>content := js ''100''\<rparr>),
                 assetDisplay := Some (emptyField\<lparr>content := js ''1.2''\<rparr>),
                 activeElement := AssetDisplay\<rparr>"

definition filledPage :: page where
  "filledPage =
     initialPage\<lparr>app_chain := Some (js ''Ethereum''), app_asset := Some (js ''eth''),
                 data_assetPriceUSD := Some (Fin (4501 / 2)),
                 validation_isAddressValid := True,
                 usdInput := Some (emptyField\<lparr>content := js ''100''\<rparr>),
                 assetDisplay := Some (emptyField\<lparr>content := js ''0.044435''\<rparr>)\<rparr>"

definition emptyAssetPage :: page where
  "emptyAssetPage =
     initialPage\<lparr>app_chain := Some (js ''Ethereum''), app_asset := Some (js ''eth''),
                 app_inputMode := AssetMode, blockedSide := LeftSide,
                 data_assetPriceUSD := Some (Fin (4501 / 2)),
                 validation_isAddressValid := True,
                 usdInput := Some (emptyField\<lparr>content := js ''50.00''\<rparr>),
                 assetDisplay := Some (emptyField\<lparr>content := []\<rparr>)\<rparr>"

definition missingPricePage :: page where
  "missingPricePage =
     emptyAssetPage\<lparr>app_chain := None, app_asset := None, data_assetPriceUSD := None\<rparr>"

definition arbitrumPage :: page where
  "arbitrumPage = sessionPage\<lparr>app_chain := Some (js ''Arbitrum One'')\<rparr>"

definition fullAssetPage :: page where
  "fullAssetPage =
     initialPage\<lparr>app_chain := Some (js ''Ethereum''), app_asset := Some (js ''eth''),
                 app_inputMode := AssetMode, blockedSide := LeftSide,
                 data_assetPriceUSD := Some (Fin (4501 / 2)),
                 validation_isAddressValid := True,
                 assetDisplay := Some (emptyField\<lparr>content := js ''12345678901234567''\<rparr>),
                 activeElement := AssetDisplay\<rparr>"

definition typeEight :: inputEvent where
  "typeEight = \<lparr>inputType = InsertText, data = Some (js ''8''), selectionStart = 17,
                selectionLength = 0\<rparr>"

definition composeEight :: inputEvent where
  "composeEight = \<lparr>inputType = InsertCompositionText, data = Some (js ''8''),
                   selectionStart = 17, selectionLength = 0\<rparr>"


section \<open>Properties of binary64 rounding\<close>

text \<open>
  The binary exponent is characterised by its two bounds. Rounding a non-negative value
  that is not beyond \<open>2^1023\<close> gives a finite non-negative value with a relative error of
  at most \<open>2^-53\<close>, or an absolute error of at most \<open>2^-1075\<close> among the subnormal
  values; a value with a significand of 53 bits is its own rounding.
\<close>

lemma powi_nat: "0 \<le> e \<Longrightarrow> (2::rat) powi e = 2 ^ nat e"
  by (simp add: power_int_def)

lemma ilog2_bounds:
  assumes "0 < a"
  shows "2 powi (ilog2 a) \<le> a \<and> a < 2 powi (ilog2 a + 1)"
proof (cases "1 \<le> a")
  case True
  define f where "f = \<lfloor>a\<rfloor>"
  have f1: "1 \<le> f" using True by (simp add: f_def le_floor_iff)
  then have f0: "0 < f" by simp
  have b: "2 ^ nat (bitlen f - 1) \<le> f" "f < 2 ^ nat (bitlen f)"
    using bitlen_bounds [OF f0] by auto
  have bl: "1 \<le> bitlen f" using f0 by (auto simp: bitlen_alt_def)
  have i: "ilog2 a = bitlen f - 1" using True by (simp add: ilog2_def f_def)
  have "(2::rat) powi (bitlen f - 1) = of_int (2 ^ nat (bitlen f - 1))"
    using bl by (simp add: powi_nat)
  also have "\<dots> \<le> of_int f" using b(1) by (simp only: of_int_le_iff)
  also have "\<dots> \<le> a" by (simp add: f_def)
  finally have lo: "2 powi (ilog2 a) \<le> a" by (simp add: i)
  have "f + 1 \<le> 2 ^ nat (bitlen f)" using b(2) by simp
  then have "(of_int (f + 1) :: rat) \<le> of_int (2 ^ nat (bitlen f))"
    by (simp only: of_int_le_iff)
  moreover have "a < of_int (f + 1)" unfolding f_def by linarith
  ultimately have "a < of_int (2 ^ nat (bitlen f))" by linarith
  also have "\<dots> = 2 powi (bitlen f)" using bl by (simp add: powi_nat)
  finally have "a < 2 powi (ilog2 a + 1)" by (simp add: i)
  then show ?thesis using lo by simp
next
  case False
  define t where "t = 1 / a"
  have t1: "1 < t" using False assms by (simp add: t_def)
  define g where "g = \<lceil>t\<rceil> - 1"
  have "1 < \<lceil>t\<rceil>" using t1 by (simp add: less_ceiling_iff)
  then have g0: "0 < g" by (simp add: g_def)
  have b: "2 ^ nat (bitlen g - 1) \<le> g" "g < 2 ^ nat (bitlen g)"
    using bitlen_bounds [OF g0] by auto
  have bl: "1 \<le> bitlen g" using g0 by (auto simp: bitlen_alt_def)
  have i: "ilog2 a = - bitlen g" using False by (simp add: ilog2_def g_def t_def)
  have "t \<le> of_int (g + 1)" by (simp add: g_def)
  also have "\<dots> \<le> of_int (2 ^ nat (bitlen g))"
  proof -
    have "g + 1 \<le> 2 ^ nat (bitlen g)" using b(2) by simp
    then show ?thesis by (simp only: of_int_le_iff)
  qed
  also have "\<dots> = 2 powi (bitlen g)" using bl by (simp add: powi_nat)
  finally have "1 / a \<le> 2 powi (bitlen g)" by (simp add: t_def)
  then have "1 \<le> 2 powi (bitlen g) * a" using assms by (simp add: pos_divide_le_eq)
  then have "1 / 2 powi (bitlen g) \<le> a"
    by (simp add: pos_divide_le_eq mult.commute)
  then have lo: "2 powi (ilog2 a) \<le> a"
    by (simp add: i power_int_minus inverse_eq_divide)
  have "(of_int (2 ^ nat (bitlen g - 1)) :: rat) \<le> of_int g"
    using b(1) by (simp only: of_int_le_iff)
  moreover have "of_int g < t" using ceiling_correct [of t] by (simp add: g_def)
  ultimately have "of_int (2 ^ nat (bitlen g - 1)) < t" by linarith
  moreover have "(of_int (2 ^ nat (bitlen g - 1)) :: rat) = 2 powi (bitlen g - 1)"
    using bl by (simp add: powi_nat)
  ultimately have "2 powi (bitlen g - 1) < 1 / a" by (simp add: t_def)
  then have "2 powi (bitlen g - 1) * a < 1" using assms by (simp add: pos_less_divide_eq)
  then have "a < 1 / 2 powi (bitlen g - 1)"
    by (simp add: pos_less_divide_eq mult.commute)
  also have "\<dots> = 2 powi (- (bitlen g - 1))"
    by (simp only: power_int_minus inverse_eq_divide)
  finally have "a < 2 powi (ilog2 a + 1)" by (simp add: i)
  then show ?thesis using lo by simp
qed

lemma powi_less_imp_less: "(2::rat) powi m < 2 powi n \<Longrightarrow> m < n"
  using power_int_increasing [of n m "2::rat"] by (cases "m < n") auto

lemma ilog2_unique:
  assumes "0 < a" and "2 powi e \<le> a" and "a < 2 powi (e + 1)"
  shows "ilog2 a = e"
proof -
  have b: "2 powi (ilog2 a) \<le> a" "a < 2 powi (ilog2 a + 1)"
    using ilog2_bounds [OF assms(1)] by auto
  have "(2::rat) powi e < 2 powi (ilog2 a + 1)" using assms(2) b(2) by linarith
  then have "e < ilog2 a + 1" by (rule powi_less_imp_less)
  moreover have "(2::rat) powi (ilog2 a) < 2 powi (e + 1)" using assms(3) b(1) by linarith
  then have "ilog2 a < e + 1" by (rule powi_less_imp_less)
  ultimately show ?thesis by simp
qed

lemma roundHalfEven_err: "\<bar>of_int (roundHalfEven y) - y\<bar> \<le> 1 / 2"
proof -
  have "of_int \<lfloor>y\<rfloor> \<le> y" "y < of_int \<lfloor>y\<rfloor> + 1" by linarith+
  then show ?thesis by (auto simp: roundHalfEven_def Let_def)
qed

lemma roundHalfEven_nonneg: "0 \<le> y \<Longrightarrow> 0 \<le> roundHalfEven y"
  by (auto simp: roundHalfEven_def Let_def)

lemma roundHalfEven_unique:
  assumes "\<bar>y - of_int m\<bar> < 1 / 2"
  shows "roundHalfEven y = m"
proof -
  have "\<bar>of_int (roundHalfEven y) - y\<bar> \<le> 1 / 2" by (rule roundHalfEven_err)
  then have "\<bar>(of_int (roundHalfEven y) :: rat) - of_int m\<bar> < 1" using assms by linarith
  then have "\<bar>(of_int (roundHalfEven y - m) :: rat)\<bar> < 1" by simp
  then have "\<bar>roundHalfEven y - m\<bar> < 1" by (simp only: of_int_abs [symmetric] of_int_less_1_iff)
  then show ?thesis by simp
qed

lemma roundHalfEven_int [simp]: "roundHalfEven (of_int k) = k"
  by (rule roundHalfEven_unique) simp


lemma roundHalfEven_numeral [simp]: "roundHalfEven (numeral n) = numeral n"
  using roundHalfEven_int [of "numeral n"] by simp

lemma powi_pos [simp]: "0 < (2::rat) powi e"
  by (simp add: zero_less_power_int)

lemma powi_mono: "m \<le> n \<Longrightarrow> (2::rat) powi m \<le> 2 powi n"
  by (rule power_int_increasing) simp_all

lemma powi_diff: "(2::rat) powi (m - n) = 2 powi m / 2 powi n"
  by (rule power_int_diff) simp

lemma powi_add: "(2::rat) powi (m + n) = 2 powi m * 2 powi n"
  by (rule power_int_add) simp

lemma below_threshold:
  "x \<le> 2 powi 1023 + 2 powi 970 \<Longrightarrow> \<not> overflowThreshold \<le> x"
proof -
  assume "x \<le> 2 powi 1023 + 2 powi 970"
  moreover have "(2::rat) powi 1023 + 2 powi 970 < 2 ^ 1024" by (simp add: power_int_def)
  ultimately show ?thesis by (simp add: overflowThreshold_def)
qed

lemma nearest_pos_unfold:
  assumes "0 < q"
  shows "nearest q =
     (let e = max (ilog2 q) (- 1022); ulp = 2 powi (e - 52);
          r = of_int (roundHalfEven (q / ulp)) * ulp
      in if overflowThreshold \<le> r then PInf else Fin r)"
  using assms by (simp add: nearest_def Let_def)


lemma nearest_nonneg:
  assumes "0 \<le> x"
  shows "nearest x = PInf \<or> (\<exists>x'. nearest x = Fin x' \<and> 0 \<le> x')"
proof (cases "x = 0")
  case True
  then show ?thesis by (simp add: nearest_def)
next
  case False
  then have pos: "0 < x" using assms by simp
  have "0 \<le> of_int (roundHalfEven (x / 2 powi (max (ilog2 x) (- 1022) - 52)))
            * (2::rat) powi (max (ilog2 x) (- 1022) - 52)"
    using pos by (intro mult_nonneg_nonneg) (simp_all add: roundHalfEven_nonneg)
  then show ?thesis by (simp add: nearest_pos_unfold [OF pos] Let_def)
qed

lemma nearest_eqI_even:
  assumes "2 powi e \<le> q" and "q < 2 powi (e + 1)" and "- 1022 \<le> e" and "e \<le> 1022"
    and "roundHalfEven (q / 2 powi (e - 52)) = m"
  shows "nearest q = Fin (of_int m * 2 powi (e - 52))"
proof -
  have pos: "0 < q" using assms(1) powi_pos [of e] by linarith
  have i: "ilog2 q = e" using pos assms(1,2) by (rule ilog2_unique)
  have mx: "max (ilog2 q) (- 1022) = e" using i assms(3) by simp
  have err: "\<bar>of_int m - q / 2 powi (e - 52)\<bar> \<le> 1 / 2"
    using roundHalfEven_err [of "q / 2 powi (e - 52)"] by (simp only: assms(5))
  have "q / 2 powi (e - 52) < 2 powi (e + 1) / 2 powi (e - 52)"
    using assms(2) by (simp add: divide_strict_right_mono)
  also have "\<dots> = 2 powi (e + 1 - (e - 52))" by (simp only: powi_diff)
  also have "e + 1 - (e - 52) = 53" by simp
  finally have "of_int m < (2::rat) powi 53 + 1 / 2" using err by linarith
  then have "of_int m < (of_int (2 ^ 53 + 1) :: rat)" by (simp add: power_int_def)
  then have "m < 2 ^ 53 + 1" by (simp only: of_int_less_iff)
  then have "m \<le> 2 ^ 53" by simp
  then have "(of_int m :: rat) \<le> of_int (2 ^ 53)" by (simp only: of_int_le_iff)
  then have "(of_int m :: rat) \<le> 2 powi 53" by (simp add: power_int_def)
  then have "of_int m * 2 powi (e - 52) \<le> 2 powi 53 * (2::rat) powi (e - 52)"
    by (simp add: mult_right_mono)
  also have "\<dots> = 2 powi (53 + (e - 52))" by (simp only: powi_add)
  also have "53 + (e - 52) = e + 1" by simp
  also have "(2::rat) powi (e + 1) \<le> 2 powi 1023" using assms(4) by (intro powi_mono) simp
  finally have "of_int m * (2::rat) powi (e - 52) \<le> 2 powi 1023 + 2 powi 970"
    using powi_pos [of 970] by linarith
  then have no: "\<not> overflowThreshold \<le> of_int m * (2::rat) powi (e - 52)"
    by (rule below_threshold)
  show ?thesis using no by (simp add: nearest_pos_unfold [OF pos] Let_def mx assms(5))
qed

lemma nearest_eqI:
  assumes "2 powi e \<le> q" and "q < 2 powi (e + 1)" and "- 1022 \<le> e" and "e \<le> 1022"
    and "\<bar>q / 2 powi (e - 52) - of_int m\<bar> < 1 / 2"
  shows "nearest q = Fin (of_int m * 2 powi (e - 52))"
  using assms(1-4) roundHalfEven_unique [OF assms(5)] by (rule nearest_eqI_even)


lemma nearest_exact:
  assumes "0 \<le> m" and "m < 2 ^ 53" and "- 1074 \<le> j" and "j \<le> 970"
  shows "nearest (of_int m * 2 powi j) = Fin (of_int m * 2 powi j)"
proof (cases "m = 0")
  case True
  then show ?thesis by (simp add: nearest_def)
next
  case False
  then have m1: "1 \<le> m" using assms(1) by simp
  define q :: rat where "q = of_int m * 2 powi j"
  have pos: "0 < q" using m1 by (simp add: q_def)
  define e0 where "e0 = ilog2 q"
  define e where "e = max e0 (- 1022)"
  have b: "2 powi e0 \<le> q" "q < 2 powi (e0 + 1)"
    using ilog2_bounds [OF pos] by (auto simp: e0_def)
  have "(of_int m :: rat) < of_int (2 ^ 53)" using assms(2) by (simp only: of_int_less_iff)
  then have "(of_int m :: rat) < 2 powi 53" by (simp add: power_int_def)
  then have "q < 2 powi 53 * 2 powi j" by (simp add: q_def)
  also have "\<dots> = 2 powi (53 + j)" using powi_add [of 53 j] by simp
  finally have qlt: "q < 2 powi (53 + j)" .
  then have "(2::rat) powi e0 < 2 powi (53 + j)" using b(1) by linarith
  then have "e0 < 53 + j" by (rule powi_less_imp_less)
  then have ele: "e \<le> 52 + j" using assms(3) by (simp add: e_def)
  define d where "d = nat (52 + j - e)"
  have dd: "int d = 52 + j - e" using ele by (simp add: d_def)
  have "q / 2 powi (e - 52) = of_int m * (2 powi j / 2 powi (e - 52))" by (simp add: q_def)
  also have "2 powi j / (2::rat) powi (e - 52) = 2 powi (j - (e - 52))"
    by (simp only: powi_diff)
  also have "j - (e - 52) = int d" using dd by simp
  also have "(2::rat) powi (int d) = of_int (2 ^ d)" by (simp add: power_int_def)
  finally have qu: "q / 2 powi (e - 52) = of_int (m * 2 ^ d)" by simp
  have rh: "roundHalfEven (q / 2 powi (e - 52)) = m * 2 ^ d"
    by (simp only: qu roundHalfEven_int)
  have "of_int (m * 2 ^ d) * (2::rat) powi (e - 52) = q / 2 powi (e - 52) * 2 powi (e - 52)"
    by (simp only: qu)
  also have "\<dots> = q" by simp
  finally have r: "of_int (m * 2 ^ d) * (2::rat) powi (e - 52) = q" .
  have "q < 2 powi 1023" using qlt powi_mono [of "53 + j" 1023] assms(4) by simp
  then have "q \<le> 2 powi 1023 + 2 powi 970" using powi_pos [of 970] by linarith
  then have no: "\<not> overflowThreshold \<le> q" by (rule below_threshold)
  have mx: "max (ilog2 q) (- 1022) = e" by (simp add: e_def e0_def)
  have "nearest q =
          (if overflowThreshold \<le> of_int (roundHalfEven (q / 2 powi (e - 52))) * 2 powi (e - 52)
           then PInf
           else Fin (of_int (roundHalfEven (q / 2 powi (e - 52))) * 2 powi (e - 52)))"
    by (simp only: nearest_pos_unfold [OF pos] Let_def mx)
  also have "\<dots> = (if overflowThreshold \<le> q then PInf else Fin q)" by (simp only: rh r)
  also have "\<dots> = Fin q" using no by simp
  finally show ?thesis by (simp only: q_def)
qed

lemma nearest_of_nat: "n < 2 ^ 53 \<Longrightarrow> nearest (of_nat n) = Fin (of_nat n)"
  using nearest_exact [of "int n" 0] by simp

lemma nearest_zero [simp]: "nearest 0 = Fin 0"
  by (simp add: nearest_def)

lemma nearest_numeral:
  "numeral n < (2::nat) ^ 53 \<Longrightarrow> nearest (numeral n) =
     Fin (numeral n)"
  using nearest_of_nat [of "numeral n"] by simp

lemma nearest_not_NaN [simp]: "nearest q \<noteq> NaN"
  by (simp add: nearest_def Let_def)

lemma nearest_not_neg: "0 \<le> q \<Longrightarrow> \<not> num_lt (nearest q) (Fin 0)"
  using nearest_nonneg [of q] by auto

section \<open>Properties of the amount engine\<close>

lemmas scan_defs = stringToNumber_def trim_def isWhite_def radixLiteral_def radixOf_def
  radixDigit_def scanSigned_def scanUnsigned_def scanExponent_def isDigit_def digitsValue_def
  decimalDigit_def pow10_def js_def nearest_numeral Let_def

lemma includes_str_sublist: "includes_str s sub \<longleftrightarrow> sublist sub s"
  by (induction s) (auto simp: sublist_Cons_right)

lemma safeParse_Num:
  "safeParse (Num n) =
     Inr (if n = NaN then None else if num_lt n (Fin 0) then Some (Fin 0) else Some n)"
  by (simp add: safeParse_def)

lemma safeParse_Some:
  assumes "safeParse v = Inr (Some n)"
  shows "n \<noteq> NaN \<and> \<not> num_lt n (Fin 0)"
  using assms by (auto simp: safeParse_def split: if_splits sum.splits)



lemma num_mul_not_neg:
  assumes "\<not> num_lt a (Fin 0)" "num_gt p (Fin 0)"
  shows "\<not> num_lt (num_mul a p) (Fin 0)"
  using assms
  by (cases a; cases p)
     (auto simp: num_gt_def signed_inf_def not_less zero_le_mult_iff intro: nearest_not_neg
           dest: nearest_not_neg [THEN notE, rotated])


text \<open>
  The specification's first scenario: 100 dollars at 2250.50 on Ethereum derive the
  binary64 value nearest 0.044435. The quotient and its product with \<open>10^6\<close> are each
  rounded to binary64 on the way.
\<close>

lemma session_parse: "safeParse (Str (js ''100'')) = Inr (Some (Fin 100))"
  by (simp add: safeParse_def scan_defs)

lemma session_quotient:
  "nearest (200 / 4501) = Fin (3201848213193865 / 72057594037927936)"
  using nearest_eqI [of "- 5" "200 / 4501" 6403696426387730] by simp

lemma session_scaled:
  "nearest (3201848213193865 / 72057594037927936 * 1000000) = Fin (381690050744279 / 8589934592)"
  using nearest_eqI [of "15" "3201848213193865 / 72057594037927936 * 1000000" 6107040811908464]
  by simp

lemma session_rounded: "\<lfloor>(381690050744279 / 8589934592 :: rat) + 1 / 2\<rfloor> = 44435"
  by (simp add: floor_eq_iff)

lemma session_asset: "nearest (44435 / 10 ^ 6) = Fin (6253670295069 / 140737488355328)"
  using nearest_eqI [of "- 5" "44435 / 10 ^ 6" 6403758382150656] by simp


subsection \<open>The round trip fiat to asset to fiat\<close>

lemma decimalsFor_Ethereum: "decimalsFor (Some (js ''Ethereum'')) = 6"
  by (simp add: decimalsFor_def js_def toLowerCase_def PRECISION_eth_def)

lemma floor_numeral_div:
  "\<lfloor>(numeral a :: rat) / numeral b\<rfloor> =
     numeral a div numeral b"
  using floor_divide_of_int_eq [of "numeral a" "numeral b", where ?'a = rat] by simp








lemma floor_half: "\<lfloor>(1::rat) / 2\<rfloor> = 0"
  by (simp add: floor_eq_iff)

lemma safeRound_zero: "safeRound (Some (Fin 0)) d = Some (Fin 0)"
  by (simp add: safeRound_def Math_pow10_def Let_def floor_half)

lemma safeParse_Fin_nonneg:
  "0 \<le> y \<Longrightarrow> safeParse (Num (Fin y)) =
     Inr (Some (Fin y))"
  by (simp add: safeParse_Num)

lemma roundAsset_Fin:
  "0 \<le> q \<Longrightarrow> roundAsset (Num (Fin q)) chain = Inr (safeRound (Some (Fin q)) (decimalsFor chain))"
  by (simp add: roundAsset_def safeParse_Fin_nonneg)


lemma deriveFromFiat_Fin:
  assumes "safeParse v = Inr (Some (Fin a))" and "0 < p" and "nearest (a / p) = Fin q"
  shows "deriveFromFiat v (Num (Fin p)) chain =
           Inr (safeRound (Some (Fin q)) (decimalsFor chain))"
proof -
  have a0: "0 \<le> a" using safeParse_Some [OF assms(1)] by (simp add: not_less)
  have pp: "safeParse (Num (Fin p)) = Inr (Some (Fin p))"
    using assms(2) by (simp add: safeParse_Fin_nonneg)
  show ?thesis
  proof (cases "a = 0")
    case True
    then have "q = 0" using assms(3) by simp
    then show ?thesis using True assms(1,2) pp
      by (simp add: deriveFromFiat_def num_le_def num_eq_def safeRound_zero)
  next
    case False
    have "0 \<le> a / p" using a0 assms(2) by simp
    then have "\<not> num_lt (nearest (a / p)) (Fin 0)" by (rule nearest_not_neg)
    then have q0: "0 \<le> q" using assms(3) by (simp add: not_less)
    show ?thesis using assms pp False roundAsset_Fin [OF q0, of chain]
      by (simp add: deriveFromFiat_def num_le_def num_eq_def)
  qed
qed









































text \<open>
  The round trip of the first scenario, operation by operation: 100 dollars at 2250.50 on
  Ethereum derive the binary64 value of 0.044435, which comes back as 100.
\<close>

lemma session_derived:
  "deriveFromFiat (Str (js ''100'')) (Num (Fin (4501 / 2))) (Some (js ''Ethereum''))
     = Inr (Some (Fin (6253670295069 / 140737488355328)))"
  using deriveFromFiat_Fin [OF session_parse, of "4501 / 2" "3201848213193865 / 72057594037927936" "Some (js ''Ethereum'')"]
        session_quotient session_scaled session_rounded session_asset
  by (simp add: decimalsFor_Ethereum safeRound_def Math_pow10_def Let_def)









subsection \<open>Precision per chain\<close>

lemma session_unscaled:
  "nearest (3201848213193865 / 72057594037927936 * 10 ^ 0) = Fin (3201848213193865 / 72057594037927936)"
  using nearest_eqI [of "- 5" "3201848213193865 / 72057594037927936 * 10 ^ 0" 6403696426387730]
  by simp

lemma session_whole: "\<lfloor>(3201848213193865 / 72057594037927936 :: rat) + 1 / 2\<rfloor> = 0"
  by (simp add: floor_eq_iff)

lemma arbitrum_derived:
  "deriveFromFiat (Str (js ''100'')) (Num (Fin (4501 / 2))) (Some (js ''Arbitrum One''))
     = Inr (Some (Fin 0))"
proof -
  have dec: "decimalsFor (Some (js ''Arbitrum One'')) = 0"
    by (simp add: decimalsFor_def js_def toLowerCase_def PRECISION_eth_def
          PRECISION_btc_def PRECISION_sol_def PRECISION_default_def)
  show ?thesis
    using deriveFromFiat_Fin [OF session_parse, of "4501 / 2" "3201848213193865 / 72057594037927936" "Some (js ''Arbitrum One'')"]
          session_quotient session_unscaled session_whole
    by (simp add: dec safeRound_def Math_pow10_def Let_def)
qed

text \<open>
  C7. The claim gives the chains of the Ethereum family 6 decimals. \<open>roundAsset\<close> does
  so only for a name that contains \<open>eth\<close>. Arbitrum One, which \<open>resolveChainFamily\<close>
  places in the Ethereum family like Ethereum itself and which the chain overlay stores as
  the selected chain, carries no marker and is rounded with the default precision 0: 100
  dollars at the price 2250.50 derive the amount 0.
\<close>

theorem chain_family_precision_gap:
  "resolveChainFamily (Some (js ''Ethereum'')) = Some (js ''ethereum'') \<and>
   resolveChainFamily (Some (js ''Arbitrum One'')) = Some (js ''ethereum'') \<and>
   decimalsFor (Some (js ''Ethereum'')) = 6 \<and>
   decimalsFor (Some (js ''Arbitrum One'')) = 0 \<and>
   deriveFromFiat (Str (js ''100'')) (Num (Fin (4501 / 2))) (Some (js ''Arbitrum One''))
     = Inr (Some (Fin 0))"
proof -
  have fam: "resolveChainFamily (Some (js ''Ethereum'')) = Some (js ''ethereum'')"
    "resolveChainFamily (Some (js ''Arbitrum One'')) = Some (js ''ethereum'')"
    by (simp_all add: resolveChainFamily_def ethereumFamily_def js_def)
  have dec: "decimalsFor (Some (js ''Ethereum'')) = 6"
    "decimalsFor (Some (js ''Arbitrum One'')) = 0"
    by (simp_all add: decimalsFor_def js_def toLowerCase_def PRECISION_eth_def
          PRECISION_btc_def PRECISION_sol_def PRECISION_default_def)
  show ?thesis using fam dec arbitrum_derived by simp
qed

text \<open>On the screen, with Arbitrum One selected, the asset field then shows 0.\<close>

lemma arbitrum_asset_field:
  "assetText (updateAmountMirror arbitrumPage) = js ''0''"
  using arbitrum_derived
  by (simp add: arbitrumPage_def sessionPage_def initialPage_def updateAmountMirror_def
        truthyString_def truthyNumber_def numOrNull_def positive_def Let_def assetText_def
        emptyField_def setVisualValue_def safeDecimalString_def updateNumericScaling_def
        NEUTRAL_def js_def num_gt_def)

text \<open>
  The precision for each name of the Ethereum family, in the order of the list: only the
  two names that spell out Ethereum get 6. The names and asset codes the engine documents
  are recognised.
\<close>

lemma decimalsFor_ethereumFamily:
  "map (\<lambda>ch. decimalsFor (Some ch)) ethereumFamily = [6, 6, 0, 0, 0, 0, 0, 0, 0, 0, 0, 0, 0, 0, 0]"
  by (simp add: ethereumFamily_def decimalsFor_def js_def toLowerCase_def PRECISION_eth_def
        PRECISION_btc_def PRECISION_sol_def PRECISION_default_def)

lemma decimalsFor_examples:
  "decimalsFor (Some (js ''Ethereum'')) = 6"
  "decimalsFor (Some (js ''Solana'')) = 6"
  "decimalsFor (Some (js ''Bitcoin'')) = 8"
  "decimalsFor (Some (js ''eth'')) = 6"
  "decimalsFor (Some (js ''btc'')) = 8"
  "decimalsFor (Some (js ''sol'')) = 6"
  "decimalsFor (Some (js ''Arbitrum One'')) = 0"
  by (simp_all add: decimalsFor_def js_def toLowerCase_def PRECISION_eth_def PRECISION_btc_def
        PRECISION_sol_def PRECISION_default_def)

subsection \<open>Malformed inputs\<close>

lemma derive_amount_null:
  assumes "safeParse v = Inr None" and "safeParse w = Inr p"
  shows "deriveFromFiat v w chain = Inr None" and "deriveFromAsset v w = Inr None"
  using assms by (simp_all add: deriveFromFiat_def deriveFromAsset_def)

lemma derive_price_null:
  assumes "safeParse v = Inr a" and "safeParse w = Inr None"
  shows "deriveFromFiat v w chain = Inr None" and "deriveFromAsset v w = Inr None"
  using assms by (cases a; simp add: deriveFromFiat_def deriveFromAsset_def)+

lemma derive_price_zero:
  assumes "safeParse v = Inr a" and "safeParse w = Inr (Some (Fin 0))"
  shows "deriveFromFiat v w chain = Inr None" and "deriveFromAsset v w = Inr None"
  using assms by (cases a; simp add: deriveFromFiat_def deriveFromAsset_def num_le_def)+

lemma derive_amount_zero:
  assumes "safeParse v = Inr (Some (Fin 0))" and "safeParse w = Inr (Some m)" and "num_gt m (Fin 0)"
  shows "deriveFromFiat v w chain = Inr (Some (Fin 0))"
    and "deriveFromAsset v w = Inr (Some (Fin 0))"
proof -
  have "\<not> num_le m (Fin 0)" using assms(3) by (cases m) (auto simp: num_gt_def num_le_def)
  then show "deriveFromFiat v w chain = Inr (Some (Fin 0))"
    and "deriveFromAsset v w = Inr (Some (Fin 0))"
    using assms by (simp_all add: deriveFromFiat_def deriveFromAsset_def num_eq_def)
qed

lemma safeParse_cases:
  assumes "toNumber v = Inr n"
  shows "safeParse v =
           Inr (if v = Null \<or> v = Undefined \<or> v = Str [] \<or> n = NaN then None
                else if num_lt n (Fin 0) then Some (Fin 0) else Some n)"
  using assms by (simp add: safeParse_def)

lemma roundAsset_Num_returns: "\<exists>r. roundAsset (Num x) chain = Inr r"
  by (simp add: roundAsset_def safeParse_Num)

lemma roundFiat_Num_returns: "\<exists>r. roundFiat (Num x) = Inr r"
  by (simp add: roundFiat_def safeParse_Num)

lemma derive_returns:
  assumes "safeParse v = Inr a" and "safeParse w = Inr p"
  shows "\<exists>r. deriveFromFiat v w chain = Inr r" and "\<exists>r. deriveFromAsset v w = Inr r"
proof -
  show "\<exists>r. deriveFromFiat v w chain = Inr r"
    using assms roundAsset_Num_returns
    by (cases a; cases p) (simp_all add: deriveFromFiat_def)
  show "\<exists>r. deriveFromAsset v w = Inr r"
    using assms roundFiat_Num_returns
    by (cases a; cases p) (simp_all add: deriveFromAsset_def)
qed

text \<open>
  C6. The claim, like the comment above \<open>safeParse\<close> (null if invalid, NaN or negative),
  has a negative value parse to \<open>null\<close> and the derivations return \<open>null\<close> for it.
  On the amount \<open>-5\<close> the code does otherwise: \<open>safeParse\<close> returns 0, and both
  derivations return the number 0 at the price 100, while the same negative number as the
  price does make them return \<open>null\<close>.
\<close>

theorem negative_amount_not_null:
  "safeParse (Num (Fin (- 5))) = Inr (Some (Fin 0)) \<and>
   deriveFromFiat (Num (Fin (- 5))) (Num (Fin 100)) (Some (js ''Ethereum'')) = Inr (Some (Fin 0)) \<and>
   deriveFromAsset (Num (Fin (- 5))) (Num (Fin 100)) = Inr (Some (Fin 0)) \<and>
   deriveFromFiat (Num (Fin 100)) (Num (Fin (- 5))) (Some (js ''Ethereum'')) = Inr None \<and>
   deriveFromAsset (Num (Fin 100)) (Num (Fin (- 5))) = Inr None"
  by (simp add: safeParse_Num deriveFromFiat_def deriveFromAsset_def num_le_def num_eq_def)

text \<open>
  The other malformed inputs. For every value \<open>v\<close> (the amount) and \<open>w\<close> (the price)
  whose conversion to a number does not throw, and a chain that is a string or
  \<open>null\<close>: \<open>safeParse\<close> returns \<open>null\<close> exactly for \<open>null\<close>, \<open>undefined\<close>, the
  empty string and a value that converts to \<open>NaN\<close>; both derivations return \<open>null\<close>
  when either argument parses to \<open>null\<close> or the price is negative, and return a result
  in every case.
\<close>

lemma engine_malformed_inputs:
  assumes "toNumber v = Inr n" and "toNumber w = Inr m"
  shows "safeParse v =
           Inr (if v = Null \<or> v = Undefined \<or> v = Str [] \<or> n = NaN then None
                else if num_lt n (Fin 0) then Some (Fin 0) else Some n) \<and>
         (safeParse v = Inr None \<or> safeParse w = Inr None \<or> num_lt m (Fin 0) \<longrightarrow>
            deriveFromFiat v w chain = Inr None \<and> deriveFromAsset v w = Inr None) \<and>
         (num_lt n (Fin 0) \<and> num_gt m (Fin 0) \<longrightarrow>
            deriveFromFiat v w chain = Inr (Some (Fin 0)) \<and>
            deriveFromAsset v w = Inr (Some (Fin 0))) \<and>
         (\<exists>r. deriveFromFiat v w chain = Inr r) \<and> (\<exists>r. deriveFromAsset v w = Inr r)"
proof -
  note pv = safeParse_cases [OF assms(1)]
  note pw = safeParse_cases [OF assms(2)]
  obtain a where a: "safeParse v = Inr a" using pv by blast
  obtain p where p: "safeParse w = Inr p" using pw by blast
  have wneg: "safeParse w = Inr (Some (Fin 0))" if "num_lt m (Fin 0)"
  proof -
    have "m \<noteq> NaN" using that by auto
    moreover have "w \<noteq> Null" "w \<noteq> Undefined" "w \<noteq> Str []"
      using that assms(2) by (auto simp: stringToNumber_def trim_def)
    ultimately show ?thesis using pw that by simp
  qed
  have nulls: "safeParse v = Inr None \<or> safeParse w = Inr None \<or> num_lt m (Fin 0) \<longrightarrow>
            deriveFromFiat v w chain = Inr None \<and> deriveFromAsset v w = Inr None"
    using derive_amount_null [OF _ p] derive_price_null [OF a] derive_price_zero [OF a] wneg
    by blast
  have neg: "num_lt n (Fin 0) \<and> num_gt m (Fin 0) \<longrightarrow>
            deriveFromFiat v w chain = Inr (Some (Fin 0)) \<and>
            deriveFromAsset v w = Inr (Some (Fin 0))"
  proof
    assume h: "num_lt n (Fin 0) \<and> num_gt m (Fin 0)"
    then have "n \<noteq> NaN" "m \<noteq> NaN" by (auto simp: num_gt_def)
    moreover have "v \<noteq> Null" "v \<noteq> Undefined" "v \<noteq> Str []"
      using h assms(1) by (auto simp: stringToNumber_def trim_def)
    moreover have "w \<noteq> Null" "w \<noteq> Undefined" "w \<noteq> Str []"
      using h assms(2) by (auto simp: stringToNumber_def trim_def num_gt_def)
    moreover have "\<not> num_lt m (Fin 0)"
      using h by (cases m; auto simp: num_gt_def)
    ultimately have "safeParse v = Inr (Some (Fin 0))" "safeParse w = Inr (Some m)"
      using pv pw h by simp_all
    then show "deriveFromFiat v w chain = Inr (Some (Fin 0)) \<and>
            deriveFromAsset v w = Inr (Some (Fin 0))"
      using derive_amount_zero h by blast
  qed
  show ?thesis using pv nulls neg derive_returns [OF a p] by blast
qed

lemma engine_malformed_inputs_example:
  "toNumber Undefined = Inr NaN \<and> toNumber (Num (Fin (- 5))) = Inr (Fin (- 5)) \<and>
   toNumber (Num (Fin 100)) = Inr (Fin 100) \<and>
   safeParse Undefined = Inr None \<and>
   deriveFromFiat Undefined (Num (Fin 100)) (Some (js ''Ethereum'')) = Inr None \<and>
   deriveFromAsset Undefined (Num (Fin 100)) = Inr None \<and>
   safeParse (Num (Fin (- 5))) = Inr (Some (Fin 0)) \<and>
   deriveFromFiat (Num (Fin (- 5))) (Num (Fin 100)) (Some (js ''Ethereum'')) = Inr (Some (Fin 0)) \<and>
   deriveFromAsset (Num (Fin (- 5))) (Num (Fin 100)) = Inr (Some (Fin 0))"
  using engine_malformed_inputs [of Undefined NaN "Num (Fin 100)" "Fin 100" "Some (js ''Ethereum'')"]
        engine_malformed_inputs [of "Num (Fin (- 5))" "Fin (- 5)" "Num (Fin 100)" "Fin 100"
                                    "Some (js ''Ethereum'')"]
  by (simp add: num_gt_def)

section \<open>Properties of the mirror synchronizer\<close>

lemma content_updateNumericScaling [simp]: "content (updateNumericScaling e) = content e"
  by (simp add: updateNumericScaling_def Let_def)

lemma stateNeutral_updateNumericScaling [simp]:
  "stateNeutral (updateNumericScaling e) = stateNeutral e"
  by (simp add: updateNumericScaling_def Let_def)

lemma updateNumericScaling_idem [simp]:
  "updateNumericScaling (updateNumericScaling e) = updateNumericScaling e"
  by (simp add: updateNumericScaling_def Let_def)

lemma updateNumericScaling_neutral:
  "updateNumericScaling (e\<lparr>stateNeutral := b\<rparr>) = (updateNumericScaling e)\<lparr>stateNeutral := b\<rparr>"
  by (simp add: updateNumericScaling_def Let_def)

lemma setVisualValue_idem [simp]:
  "setVisualValue (setVisualValue e v b) v b = setVisualValue e v b"
  by (simp add: setVisualValue_def updateNumericScaling_def Let_def split: list.splits)

lemma setVisualValue_scaled [simp]:
  "setVisualValue (updateNumericScaling e) v b = setVisualValue e v b"
  by (simp add: setVisualValue_def updateNumericScaling_def Let_def split: list.splits)

lemma derive_string_returns:
  "\<exists>r. deriveFromFiat (Str t) (numOrNull pr) ch = Inr r"
  "\<exists>r. deriveFromAsset (Str t) (numOrNull pr) = Inr r"
proof -
  have "toNumber (Str t) = Inr (stringToNumber t)" by simp
  then obtain a where a: "safeParse (Str t) = Inr a" using safeParse_cases by blast
  have "\<exists>m. toNumber (numOrNull pr) = Inr m" by (cases pr) (simp_all add: numOrNull_def)
  then obtain p where p: "safeParse (numOrNull pr) = Inr p" using safeParse_cases by blast
  show "\<exists>r. deriveFromFiat (Str t) (numOrNull pr) ch = Inr r"
    and "\<exists>r. deriveFromAsset (Str t) (numOrNull pr) = Inr r"
    using derive_returns [OF a p] by blast+
qed

lemma natDigits_small: "n < 10 \<Longrightarrow> natDigits n = [48 + n]"
  by (simp add: natDigits.simps)

lemma natDigits_large:
  "\<not> n < 10 \<Longrightarrow> natDigits n =
     natDigits (n div 10) @ [48 + n mod 10]"
  by (subst natDigits.simps) simp

lemma natDigits_length:
  "10 ^ e \<le> n \<Longrightarrow> n < 10 ^ Suc e \<Longrightarrow> length (natDigits n) =
     Suc e"
proof (induction e arbitrary: n)
  case 0
  then show ?case by (simp add: natDigits_small)
next
  case (Suc e)
  have "10 ^ e \<le> n div 10" using Suc.prems(1) by (simp add: less_eq_div_iff_mult_less_eq mult.commute)
  moreover have "n div 10 < 10 ^ Suc e" using Suc.prems(2) by (simp add: div_less_iff_less_mult mult.commute)
  ultimately have "length (natDigits (n div 10)) = Suc e" by (rule Suc.IH)
  moreover have "\<not> n < 10"
  proof -
    have "10 * 10 ^ e \<le> n" using Suc.prems(1) by simp
    moreover have "(1::nat) \<le> 10 ^ e" by simp
    ultimately show ?thesis by linarith
  qed
  ultimately show ?case by (simp add: natDigits_large)
qed

lemma decimalExponent_eqI:
  assumes "pow10 e \<le> q" and "q < pow10 (e + 1)" and "- 400 \<le> e"
  shows "decimalExponent q = e"
proof (cases "0 \<le> e")
  case True
  define k where "k = nat e"
  have e: "e = int k" using True by (simp add: k_def)
  have lo: "(10::rat) ^ k \<le> q" and hi: "q < 10 ^ Suc k"
    using assms(1,2) by (simp_all add: pow10_def e nat_add_distrib)
  have "(1::rat) \<le> 10 ^ k" by simp
  then have q1: "1 \<le> q" using lo by linarith
  have "(of_int (10 ^ k) :: rat) \<le> q" using lo by simp
  then have "10 ^ k \<le> \<lfloor>q\<rfloor>" by (simp only: le_floor_iff)
  then have a: "10 ^ k \<le> nat \<lfloor>q\<rfloor>" by (simp add: le_nat_iff)
  have "q < of_int (10 ^ Suc k)" using hi by simp
  then have "\<lfloor>q\<rfloor> < 10 ^ Suc k" by (simp only: floor_less_iff)
  then have b: "nat \<lfloor>q\<rfloor> < 10 ^ Suc k" using q1 by (simp add: nat_less_iff)
  show ?thesis using natDigits_length [OF a b] q1 by (simp add: decimalExponent_def e)
next
  case False
  define k where "k = nat (400 + e)"
  define P :: rat where "P = 10 ^ 400"
  have k: "int k = 400 + e" using assms(3) by (simp add: k_def)
  have P0: "0 < P" by (simp add: P_def)
  have pe: "pow10 e * P = 10 ^ k"
  proof -
    have "400 = nat (- e) + k" using False k by simp
    then have "P = 10 ^ (nat (- e) + k)" by (simp only: P_def)
    then have "P = 10 ^ nat (- e) * 10 ^ k" by (simp only: power_add)
    moreover have "pow10 e = 1 / 10 ^ nat (- e)" using False by (simp add: pow10_def)
    ultimately show ?thesis by simp
  qed
  have pe1: "pow10 (e + 1) * P = 10 ^ Suc k"
  proof (cases "e = - 1")
    case True
    then have "400 = Suc k" using k by simp
    then have "P = 10 ^ Suc k" by (simp only: P_def)
    moreover have "pow10 (e + 1) = 1" using True by (simp add: pow10_def)
    ultimately show ?thesis by simp
  next
    case ne: False
    then have "400 = nat (- (e + 1)) + Suc k" using False k by simp
    then have "P = 10 ^ (nat (- (e + 1)) + Suc k)" by (simp only: P_def)
    then have "P = 10 ^ nat (- (e + 1)) * 10 ^ Suc k" by (simp only: power_add)
    moreover have "pow10 (e + 1) = 1 / 10 ^ nat (- (e + 1))"
      using False ne by (simp add: pow10_def)
    ultimately show ?thesis by simp
  qed
  have "pow10 (e + 1) \<le> 1" using False by (simp add: pow10_def divide_le_eq)
  then have q1: "\<not> 1 \<le> q" using assms(2) by linarith
  have lo: "(10::rat) ^ k \<le> q * P"
    using mult_right_mono [OF assms(1), of P] P0 by (simp add: pe)
  have hi: "q * P < 10 ^ Suc k"
    using mult_strict_right_mono [OF assms(2) P0] by (simp only: pe1)
  have "(of_int (10 ^ k) :: rat) \<le> q * P" using lo by simp
  then have ai: "10 ^ k \<le> \<lfloor>q * P\<rfloor>" by (simp only: le_floor_iff)
  then have a: "10 ^ k \<le> nat \<lfloor>q * P\<rfloor>" by (simp add: le_nat_iff)
  have "q * P < of_int (10 ^ Suc k)" using hi by simp
  then have "\<lfloor>q * P\<rfloor> < 10 ^ Suc k" by (simp only: floor_less_iff)
  moreover have "0 \<le> \<lfloor>q * P\<rfloor>"
  proof -
    have "(0::int) \<le> 10 ^ k" by simp
    then show ?thesis using ai by linarith
  qed
  ultimately have b: "nat \<lfloor>q * P\<rfloor> < 10 ^ Suc k" by (simp add: nat_less_iff)
  have "decimalExponent q = int (length (natDigits (nat \<lfloor>q * P\<rfloor>))) - 1 - 400"
    using q1 by (simp only: decimalExponent_def P_def if_False)
  then show ?thesis using natDigits_length [OF a b] k by simp
qed

lemma natDigits_ascii: "c \<in> set (natDigits n) \<Longrightarrow> c < 58"
proof (induction n rule: natDigits.induct)
  case (1 n)
  show ?case
  proof (cases "n < 10")
    case True
    then show ?thesis using 1(2) by (simp add: natDigits_small)
  next
    case False
    then show ?thesis using 1 by (auto simp: natDigits_large)
  qed
qed

lemma js_ascii: "c \<in> set (js t) \<Longrightarrow> c < 256"
  by (auto simp: js_def)

lemma stripTrailingZeros_subset: "set (stripTrailingZeros ds) \<subseteq> set ds"
  using set_dropWhileD [of _ "\<lambda>c. c = 48" "rev ds"] by (auto simp: stripTrailingZeros_def)

lemma padLeft_subset: "set (padLeft k ds) \<subseteq> insert 48 (set ds)"
  by (auto simp: padLeft_def)

lemma decimalString_ascii: "c \<in> set (decimalString f q) \<Longrightarrow> c < 58"
proof -
  assume c: "c \<in> set (decimalString f q)"
  define n where "n = nat (roundHalfEven (q * 10 ^ f))"
  have "set (stripTrailingZeros (padLeft f (natDigits (n mod 10 ^ f))))
          \<subseteq> insert 48 (set (natDigits (n mod 10 ^ f)))"
    using stripTrailingZeros_subset padLeft_subset by blast
  then have "set (decimalString f q)
          \<subseteq> set (natDigits (n div 10 ^ f)) \<union> {46, 48} \<union> set (natDigits (n mod 10 ^ f))"
    unfolding decimalString_def Let_def n_def [symmetric] by auto
  then show ?thesis using c natDigits_ascii by fastforce
qed

lemma positiveToString_ascii: "c \<in> set (positiveToString q) \<Longrightarrow> c < 256"
  by (auto simp: positiveToString_def Let_def dest: natDigits_ascii decimalString_ascii
           split: if_splits)

lemma numberToString_ascii: "c \<in> set (numberToString n) \<Longrightarrow> c < 256"
  by (cases n) (auto simp: numberToString_def dest: positiveToString_ascii js_ascii split: if_splits)

lemma toFixed2_ascii: "c \<in> set (toFixed2 n) \<Longrightarrow> c < 256"
  by (cases n)
     (auto simp: toFixed2_def Let_def padLeft_def dest: numberToString_ascii natDigits_ascii
           split: if_splits)


lemma splitOn_subset: "p \<in> set (splitOn c t) \<Longrightarrow> set p \<subseteq> set t"
proof (induction t arbitrary: p)
  case Nil
  then show ?case by simp
next
  case (Cons x xs)
  show ?case
  proof (cases "x = c")
    case True
    then show ?thesis using Cons by auto
  next
    case False
    show ?thesis
    proof (cases "splitOn c xs")
      case Nil
      then show ?thesis using Cons False by simp
    next
      case (Cons a list)
      then have "set a \<subseteq> set xs" using Cons.IH [of a] by simp
      moreover have "\<forall>q \<in> set list. set q \<subseteq> set xs" using Cons Cons.IH by simp
      ultimately show ?thesis using Cons.prems False Cons by auto
    qed
  qed
qed

lemma setVisualValue_string_chars:
  "set (content (setVisualValue e (ShownStr str) False)) \<subseteq> insert 46 (set str)"
proof (cases "splitOn 46 str")
  case Nil
  then show ?thesis by (auto simp: setVisualValue_def safeDecimalString_def Let_def)
next
  case (Cons p0 ps)
  note c0 = this
  show ?thesis
  proof (cases ps)
    case Nil
    then show ?thesis using c0 by (auto simp: setVisualValue_def safeDecimalString_def Let_def)
  next
    case (Cons p1 qs)
    have "set p0 \<subseteq> set str" "set p1 \<subseteq> set str"
      using splitOn_subset [of p0 46 str] splitOn_subset [of p1 46 str] c0 Cons by auto
    moreover have "set (take 6 p1) \<subseteq> set p1" by (rule set_take_subset)
    ultimately show ?thesis using c0 Cons
      by (auto simp: setVisualValue_def safeDecimalString_def Let_def)
  qed
qed

lemma setVisualValue_not_neutral:
  assumes "\<forall>c \<in> set str. c < 256"
  shows "content (setVisualValue e (ShownStr str) False) \<noteq> NEUTRAL"
proof
  assume "content (setVisualValue e (ShownStr str) False) = NEUTRAL"
  then have "8212 \<in> set (content (setVisualValue e (ShownStr str) False))"
    by (simp add: NEUTRAL_def)
  then have "8212 \<in> insert 46 (set str)" using setVisualValue_string_chars by blast
  then show False using assms by auto
qed

lemma setVisualValue_flag [simp]: "stateNeutral (setVisualValue e v False) = False"
  by (simp add: setVisualValue_def Let_def)

lemma setVisualValue_empty [simp]: "content (setVisualValue e (ShownStr []) False) = []"
  by (simp add: setVisualValue_def safeDecimalString_def Let_def)

lemmas format_defs = toFixed2_def numberToString_def positiveToString_def decimalString_def
  padLeft_def stripTrailingZeros_def natDigits_small natDigits_large floor_numeral_div

text \<open>
  C2. In fiat-authoritative mode with the asset field focused, the synchronizer leaves the
  asset field as it is (its text, its neutral flag and its font size) on every path: a
  positive derived value, a null or zero derived value, the neutral branch, and the early
  returns.
\<close>

theorem write_barrier:
  assumes "app_inputMode s = FiatMode" and "activeElement s = AssetDisplay"
  shows "assetDisplay (updateAmountMirror s) = assetDisplay s"
  using assms
  by (auto simp: updateAmountMirror_def Let_def split: option.splits sum.splits)

text \<open>Scenario 6: the asset field, focused with the text 1.2, keeps it.\<close>

theorem write_barrier_witness:
  "app_inputMode focusConflictPage = FiatMode \<and>
   activeElement focusConflictPage = AssetDisplay \<and>
   assetDisplay (updateAmountMirror focusConflictPage) = assetDisplay focusConflictPage \<and>
   assetText (updateAmountMirror focusConflictPage) = js ''1.2''"
  using write_barrier [of focusConflictPage]
  by (simp add: focusConflictPage_def initialPage_def assetText_def)

text \<open>
  C8. The synchronizer is idempotent: for every page, running it twice in a row gives the
  page that running it once gives (both fields with their text, neutral flag and font
  size, and everything else).
\<close>

theorem updateAmountMirror_idempotent:
  "updateAmountMirror (updateAmountMirror s) = updateAmountMirror s"
proof (cases "\<not> truthyString (app_asset s) \<or> \<not> truthyNumber (data_assetPriceUSD s)")
  case True
  then show ?thesis by (simp add: updateAmountMirror_def)
next
  case pre: False
  show ?thesis
  proof (cases "usdInput s")
    case None
    then show ?thesis by (simp add: updateAmountMirror_def)
  next
    case (Some usd)
    note usd = this
    show ?thesis
    proof (cases "assetDisplay s")
      case None
      then show ?thesis using usd by (simp add: updateAmountMirror_def)
    next
      case (Some ad)
      note ad = this
      show ?thesis
      proof (cases "app_inputMode s")
        case FiatMode
        obtain derived where d: "deriveFromFiat (Str (content usd))
            (numOrNull (data_assetPriceUSD s)) (app_chain s) = Inr derived"
          using derive_string_returns(1) by blast
        show ?thesis using pre usd ad FiatMode d
          by (simp add: updateAmountMirror_def Let_def split: option.splits)
      next
        case AssetMode
        obtain derived where d: "deriveFromAsset
            (Str (trim (replaceFirst (content ad) NEUTRAL [])))
            (numOrNull (data_assetPriceUSD s)) = Inr derived"
          using derive_string_returns(2) by blast
        show ?thesis using pre usd ad AssetMode d
          by (cases derived) (simp_all add: updateAmountMirror_def Let_def updateNumericScaling_neutral)
      qed
    qed
  qed
qed

text \<open>
  Scenario 5: 100 dollars entered while the asset field is neutral. The derived amount is
  the binary64 value nearest 0.044435; no decimal of fewer than five significant digits
  rounds to it, so it is printed as 0.044435.
\<close>

lemma sessionPage_derived:
  "deriveFromFiat (Str (js ''100'')) (numOrNull (Some (Fin (4501 / 2)))) (Some (js ''Ethereum''))
     = Inr (Some (Fin (6253670295069 / 140737488355328)))"
  using session_derived by (simp add: numOrNull_def)

lemma shorter_1: "nearest (1 / 25) = Fin (5764607523034235 / 144115188075855872)"
  using nearest_eqI [of "- 5" "1 / 25" 5764607523034235] by simp

lemma shorter_2: "nearest (1 / 20) = Fin (3602879701896397 / 72057594037927936)"
  using nearest_eqI [of "- 5" "1 / 20" 7205759403792794] by simp

lemma shorter_3: "nearest (11 / 250) = Fin (3170534137668829 / 72057594037927936)"
  using nearest_eqI [of "- 5" "11 / 250" 6341068275337658] by simp

lemma shorter_4: "nearest (9 / 200) = Fin (3242591731706757 / 72057594037927936)"
  using nearest_eqI [of "- 5" "9 / 200" 6485183463413514] by simp

lemma shorter_5: "nearest (111 / 2500) = Fin (6398714350568001 / 144115188075855872)"
  using nearest_eqI [of "- 5" "111 / 2500" 6398714350568001] by simp

lemma shorter_6: "nearest (89 / 2000) = Fin (3206562934687793 / 72057594037927936)"
  using nearest_eqI [of "- 5" "89 / 2000" 6413125869375586] by simp

lemma shorter_7: "nearest (4443 / 100000) = Fin (1600759451552569 / 36028797018963968)"
  using nearest_eqI [of "- 5" "4443 / 100000" 6403037806210276] by simp

lemma shorter_8: "nearest (1111 / 25000) = Fin (6404478958091035 / 144115188075855872)"
  using nearest_eqI [of "- 5" "1111 / 25000" 6404478958091035] by simp

lemma derived_exponent: "decimalExponent (6253670295069 / 140737488355328) = - 2"
  by (rule decimalExponent_eqI) (simp_all add: pow10_def)

lemma derived_shortest: "shortestDecimal (6253670295069 / 140737488355328) = 44435 / 1000000"
  using shorter_1 shorter_2 shorter_3 shorter_4 shorter_5 shorter_6 shorter_7 shorter_8
        session_asset
  by (simp add: shortestDecimal_def candidates_def derived_exponent pow10_def Let_def
        floor_numeral_div upt_conv_Cons)

lemma shown_derived:
  "content (setVisualValue ad (ShownNum (Fin (6253670295069 / 140737488355328))) False) = js ''0.044435''"
  by (simp add: setVisualValue_def safeDecimalString_def format_defs derived_shortest js_def
        Let_def)

theorem updateAmountMirror_idempotent_witness:
  "updateAmountMirror (updateAmountMirror sessionPage) = updateAmountMirror sessionPage \<and>
   assetText sessionPage = NEUTRAL \<and>
   assetText (updateAmountMirror sessionPage) = js ''0.044435''"
proof -
  have "assetText (updateAmountMirror sessionPage) = js ''0.044435''"
    using sessionPage_derived shown_derived
    by (simp add: updateAmountMirror_def sessionPage_def initialPage_def truthyString_def
                  truthyNumber_def positive_def num_gt_def assetText_def Let_def js_def)
  moreover have "assetText sessionPage = NEUTRAL"
    by (simp add: sessionPage_def initialPage_def assetText_def)
  ultimately show ?thesis using updateAmountMirror_idempotent [of sessionPage] by simp
qed

text \<open>
  C10, as stated, fails when the price is missing: in asset mode with an empty asset
  field and no price, \<open>deriveFromAsset\<close> returns \<open>null\<close> on what the synchronizer would
  pass, but the synchronizer returns at its check of the prerequisites and the fiat field
  keeps its text 50.00.
\<close>

theorem missing_price_counterexample:
  "app_inputMode missingPricePage = AssetMode \<and>
   deriveFromAsset (Str (trim (replaceFirst (assetText missingPricePage) NEUTRAL [])))
     (numOrNull (data_assetPriceUSD missingPricePage)) = Inr None \<and>
   fiatText missingPricePage = js ''50.00'' \<and>
   fiatText (updateAmountMirror missingPricePage) = js ''50.00''"
  by (simp add: missingPricePage_def emptyAssetPage_def initialPage_def assetText_def
        fiatText_def updateAmountMirror_def truthyNumber_def NEUTRAL_def trim_def
        deriveFromAsset_def safeParse_def numOrNull_def)

text \<open>
  C10, amended. In asset-authoritative mode, when the prerequisites of the synchronizer
  hold (an asset is selected and the stored price is a number other than 0) and its call
  of \<open>deriveFromAsset\<close> returns \<open>null\<close>, the fiat field is written with the empty string
  and is not marked neutral. When the asset or the price is missing, or the price is 0,
  the synchronizer changes nothing. And on every page, in either mode, the synchronizer
  never sets the neutral flag of the fiat field and never makes its text the neutral
  display: if the fiat field is neutral or shows the neutral display afterwards, it did so
  before.
\<close>

theorem fiat_field_never_neutral:
  "(truthyString (app_asset s) \<and> truthyNumber (data_assetPriceUSD s) \<and>
    usdInput s = Some usd \<and> assetDisplay s = Some ad \<and> app_inputMode s = AssetMode \<and>
    deriveFromAsset (Str (trim (replaceFirst (content ad) NEUTRAL [])))
      (numOrNull (data_assetPriceUSD s)) = Inr None
    \<longrightarrow> (\<exists>u. usdInput (updateAmountMirror s) = Some u \<and> content u = []
              \<and> \<not> stateNeutral u)) \<and>
   (\<not> truthyString (app_asset s) \<or> \<not> truthyNumber (data_assetPriceUSD s)
    \<longrightarrow> updateAmountMirror s = s) \<and>
   (usdInput (updateAmountMirror s) = Some u' \<longrightarrow>
      (\<exists>u. usdInput s = Some u \<and> (stateNeutral u' \<longrightarrow> stateNeutral u)
            \<and> (content u' = NEUTRAL \<longrightarrow> content u = NEUTRAL)))"
proof (intro conjI impI)
  assume "truthyString (app_asset s) \<and> truthyNumber (data_assetPriceUSD s) \<and>
    usdInput s = Some usd \<and> assetDisplay s = Some ad \<and> app_inputMode s = AssetMode \<and>
    deriveFromAsset (Str (trim (replaceFirst (content ad) NEUTRAL [])))
      (numOrNull (data_assetPriceUSD s)) = Inr None"
  then show "\<exists>u. usdInput (updateAmountMirror s) = Some u \<and> content u = [] \<and> \<not> stateNeutral u"
    by (simp add: updateAmountMirror_def Let_def)
next
  assume "\<not> truthyString (app_asset s) \<or> \<not> truthyNumber (data_assetPriceUSD s)"
  then show "updateAmountMirror s = s"
    by (simp add: updateAmountMirror_def)
next
  assume after: "usdInput (updateAmountMirror s) = Some u'"
  show "\<exists>u. usdInput s = Some u \<and> (stateNeutral u' \<longrightarrow> stateNeutral u)
            \<and> (content u' = NEUTRAL \<longrightarrow> content u = NEUTRAL)"
  proof (cases "\<not> truthyString (app_asset s) \<or> \<not> truthyNumber (data_assetPriceUSD s)")
    case True
    then show ?thesis using after by (simp add: updateAmountMirror_def)
  next
    case pre: False
    show ?thesis
    proof (cases "usdInput s")
      case None
      then show ?thesis using after pre by (simp add: updateAmountMirror_def)
    next
      case (Some usd)
      note usd = this
      show ?thesis
      proof (cases "assetDisplay s")
        case None
        then show ?thesis using usd after pre by (simp add: updateAmountMirror_def)
      next
        case (Some ad)
        note ad = this
        show ?thesis
        proof (cases "app_inputMode s")
          case FiatMode
          obtain derived where d: "deriveFromFiat (Str (content usd))
              (numOrNull (data_assetPriceUSD s)) (app_chain s) = Inr derived"
            using derive_string_returns(1) by blast
          show ?thesis using pre usd ad FiatMode d after
            by (auto simp: updateAmountMirror_def Let_def)
        next
          case AssetMode
          obtain derived where d: "deriveFromAsset
              (Str (trim (replaceFirst (content ad) NEUTRAL [])))
              (numOrNull (data_assetPriceUSD s)) = Inr derived"
            using derive_string_returns(2) by blast
          show ?thesis
          proof (cases derived)
            case None
            then show ?thesis using pre usd ad AssetMode d after
              by (auto simp: updateAmountMirror_def Let_def NEUTRAL_def)
          next
            case (Some x)
            have "\<forall>c \<in> set (toFixed2 x). c < 256" using toFixed2_ascii by blast
            then have "content (setVisualValue usd (ShownStr (toFixed2 x)) False) \<noteq> NEUTRAL"
              by (rule setVisualValue_not_neutral)
            then show ?thesis using pre usd ad AssetMode d after Some
              by (auto simp: updateAmountMirror_def Let_def)
          qed
        qed
      qed
    qed
  qed
qed

theorem fiat_field_never_neutral_witness:
  "deriveFromAsset (Str (trim (replaceFirst [] NEUTRAL []))) (numOrNull (Some (Fin (4501 / 2))))
     = Inr None \<and>
   (\<exists>u. usdInput (updateAmountMirror emptyAssetPage) = Some u \<and> content u = []
         \<and> \<not> stateNeutral u) \<and>
   \<not> truthyString (app_asset initialPage) \<and> updateAmountMirror initialPage = initialPage"
proof -
  have n: "\<not> truthyString (app_asset initialPage)"
    by (simp add: initialPage_def truthyString_def)
  have d: "deriveFromAsset (Str (trim (replaceFirst [] NEUTRAL []))) (numOrNull (Some (Fin (4501 / 2))))
     = Inr None"
    by (simp add: NEUTRAL_def trim_def deriveFromAsset_def safeParse_def numOrNull_def)
  have i: "updateAmountMirror initialPage = initialPage"
    using n fiat_field_never_neutral [of initialPage] by simp
  show ?thesis
    using d n i
          fiat_field_never_neutral [of emptyAssetPage "emptyField\<lparr>content := js ''50.00''\<rparr>"
              "emptyField\<lparr>content := []\<rparr>"]
    by (simp add: emptyAssetPage_def initialPage_def truthyString_def truthyNumber_def js_def)
qed

section \<open>Properties of the handlers\<close>

text \<open>
  C9. While the address is not valid, a click, mousedown, keydown or focus on an amount
  field is cancelled and the field does not keep the focus; click, mousedown and keydown
  show the toast, focus leaves the toast as it was; the start of a drag on the slider is
  cancelled with the toast and does not begin a drag. No field is written.
\<close>

theorem gating_blocks_interaction:
  assumes "\<not> validation_isAddressValid s"
  shows "fst (handleIntent ty el s) \<and>
         (el \<noteq> Body \<longrightarrow> activeElement (snd (handleIntent ty el s)) \<noteq> el) \<and>
         toast (snd (handleIntent ty el s)) =
           (if ty = Focus then toast s else Some (js ''Enter wallet address first'', True)) \<and>
         usdInput (snd (handleIntent ty el s)) = usdInput s \<and>
         assetDisplay (snd (handleIntent ty el s)) = assetDisplay s \<and>
         fst (startDrag e s) \<and>
         isDragging (snd (startDrag e s)) = isDragging s \<and>
         toast (snd (startDrag e s)) = Some (js ''Enter wallet address first'', True)"
  using assms
  by (simp add: handleIntent_def startDrag_def blur_def showToast_def Let_def)

theorem gating_blocks_interaction_witness:
  "\<not> validation_isAddressValid initialPage \<and>
   fst (handleIntent Click UsdInput initialPage) \<and>
   toast (snd (handleIntent Click UsdInput initialPage))
     = Some (js ''Enter wallet address first'', True) \<and>
   fst (handleIntent Focus AssetDisplay initialPage) \<and>
   toast (snd (handleIntent Focus AssetDisplay initialPage)) = None \<and>
   fst (startDrag (MouseDownAt 0) initialPage) \<and>
   \<not> isDragging (snd (startDrag (MouseDownAt 0) initialPage))"
proof -
  have v: "\<not> validation_isAddressValid initialPage" by (simp add: initialPage_def)
  have t: "toast initialPage = None" "\<not> isDragging initialPage" by (simp_all add: initialPage_def)
  show ?thesis
    using gating_blocks_interaction [OF v, of Click UsdInput "MouseDownAt 0"]
          gating_blocks_interaction [OF v, of Focus AssetDisplay "MouseDownAt 0"] v t
    by simp
qed

lemma gating_allows_when_valid:
  assumes "validation_isAddressValid s"
  shows "handleIntent ty el s = (False, s)" and "isDragging (snd (startDrag e s))"
  using assms by (cases e; simp add: handleIntent_def startDrag_def)+

lemma focusElement_fields [simp]:
  "usdInput (focusElement el s) = usdInput s"
  "assetDisplay (focusElement el s) = assetDisplay s"
  "app_inputMode (focusElement el s) = app_inputMode s"
  by (simp_all add: focusElement_def handleIntent_def blur_def showToast_def Let_def)

lemma updateBlockedState_values:
  assumes "updateBlockedState s = Inr s'"
  shows "fiatText s' = fiatText s"
    and "assetText s' =
           (if blockedSide s = LeftSide \<and> includes_str (assetText s) [8212] then []
            else assetText s)"
proof -
  obtain usd where usd: "usdInput s = Some usd"
    using assms by (cases "usdInput s") (simp_all add: updateBlockedState_def Let_def)
  show "fiatText s' = fiatText s"
    using assms usd
    by (cases "assetDisplay s")
       (auto simp: updateBlockedState_def Let_def fiatText_def split: if_splits)
  show "assetText s' =
           (if blockedSide s = LeftSide \<and> includes_str (assetText s) [8212] then []
            else assetText s)"
    using assms usd
    by (cases "assetDisplay s")
       (auto simp: updateBlockedState_def Let_def assetText_def split: if_splits)
qed

lemma toggle_returns:
  assumes "usdInput s \<noteq> None"
  shows "\<exists>s'. handleSingleClick s = Inr s'"
  using assms
  by (cases "assetDisplay s")
     (auto simp: handleSingleClick_def updateBlockedState_def Let_def)

text \<open>
  C3, as stated, fails in the neutral state: on entry the asset field shows the neutral
  display, and the toggle to asset mode replaces it by the empty string.
\<close>

theorem toggle_clears_neutral_counterexample:
  "assetText initialPage = NEUTRAL \<and> NEUTRAL \<noteq> [] \<and>
   map_sum id assetText (handleSingleClick initialPage) = Inr []"
  by (simp add: initialPage_def emptyField_def NEUTRAL_def assetText_def handleSingleClick_def
                updateBlockedState_def focusElement_def handleIntent_def blur_def Let_def
                updateNumericScaling_def)

text \<open>
  C3, amended. A toggle never changes the text of the fiat field. It leaves the text of
  the asset field as it is, except when the blocker is not locked, the toggle goes to asset
  mode and the text contains the dash of the neutral display: then the text becomes the
  empty string.
\<close>

theorem toggle_keeps_values:
  assumes "handleSingleClick s = Inr s'"
  shows "fiatText s' = fiatText s \<and>
         assetText s' =
           (if \<not> locked s \<and> blockedSide s = RightSide \<and> includes_str (assetText s) [8212]
            then [] else assetText s)"
proof (cases "locked s")
  case True
  then show ?thesis using assms by (simp add: handleSingleClick_def)
next
  case False
  define s1 where "s1 = s\<lparr>blockedSide := (if blockedSide s = RightSide then LeftSide else RightSide),
      app_inputMode := (if (if blockedSide s = RightSide then LeftSide else RightSide) = LeftSide
                        then AssetMode else FiatMode)\<rparr>"
  have u: "updateBlockedState s1 = Inr s'"
    using assms False by (simp add: handleSingleClick_def Let_def s1_def)
  have t: "fiatText s1 = fiatText s" "assetText s1 = assetText s"
    by (simp_all add: s1_def fiatText_def assetText_def)
  have b: "blockedSide s1 = LeftSide \<longleftrightarrow> blockedSide s = RightSide"
    by (cases "blockedSide s") (simp_all add: s1_def)
  show ?thesis using updateBlockedState_values [OF u] t b False by simp
qed

theorem toggle_keeps_values_witness:
  "\<exists>s'. handleSingleClick filledPage = Inr s' \<and> fiatText s' = js ''100'' \<and>
        assetText s' = js ''0.044435''"
proof -
  have "usdInput filledPage \<noteq> None" by (simp add: filledPage_def)
  then obtain s' where s': "handleSingleClick filledPage = Inr s'"
    using toggle_returns by blast
  have f: "fiatText filledPage = js ''100''" "assetText filledPage = js ''0.044435''"
    by (simp_all add: filledPage_def fiatText_def assetText_def)
  have n: "\<not> includes_str (assetText filledPage) [8212]"
    unfolding f by (simp add: js_def)
  show ?thesis using toggle_keeps_values [OF s'] s' f n by simp
qed

lemma digitCount_sanitize [simp]: "digitCount (sanitize t) = digitCount t"
proof -
  have "filter isDigit (filter (\<lambda>u. isDigit u \<or> u = 46) t) = filter isDigit t"
    by (induction t) auto
  then show ?thesis by (simp add: digitCount_def sanitize_def)
qed

lemma removeDots_sanitize: "length (removeDots (sanitize t)) = digitCount t"
proof -
  have "filter (\<lambda>u. u \<noteq> 46) (filter (\<lambda>u. isDigit u \<or> u = 46) t) = filter isDigit t"
    by (induction t) (auto simp: isDigit_def)
  then show ?thesis by (simp add: digitCount_def sanitize_def removeDots_def)
qed

lemma digitCount_append [simp]: "digitCount (a @ b) = digitCount a + digitCount b"
  by (simp add: digitCount_def)

lemma digitCount_take_drop: "digitCount (take i t) + digitCount (drop (i + l) t) \<le> digitCount t"
proof -
  have "t = take i t @ take l (drop i t) @ drop (i + l) t"
    by (metis add.commute append_take_drop_id drop_drop)
  then have "digitCount t = digitCount (take i t) + digitCount (take l (drop i t))
                + digitCount (drop (i + l) t)"
    by (metis digitCount_append add.assoc)
  then show ?thesis by simp
qed

lemma updateAmountMirror_asset_text:
  assumes "app_inputMode s = AssetMode"
  shows "assetText (updateAmountMirror s) = assetText s \<and>
         app_inputMode (updateAmountMirror s) = AssetMode"
  using assms
  by (auto simp: updateAmountMirror_def Let_def assetText_def split: option.splits sum.splits)

lemma assetInput_text:
  assumes "app_inputMode s = AssetMode"
  shows "assetText (assetInput s) = sanitize (assetText s) \<and>
         app_inputMode (assetInput s) = AssetMode"
proof (cases "assetDisplay s")
  case None
  then show ?thesis using assms by (simp add: assetInput_def assetText_def sanitize_def)
next
  case (Some ad)
  define s1 where "s1 = (if sanitize (content ad) \<noteq> content ad
                       then s\<lparr>assetDisplay := Some (ad\<lparr>content := sanitize (content ad)\<rparr>)\<rparr>
                       else s)"
  have m1: "app_inputMode s1 = AssetMode" using assms by (simp add: s1_def)
  have t1: "assetText s1 = sanitize (assetText s)"
    using Some by (simp add: s1_def assetText_def)
  have r: "assetInput s = (case assetDisplay (updateAmountMirror s1) of
                  None \<Rightarrow> updateAmountMirror s1
                | Some ad2 \<Rightarrow> (updateAmountMirror s1)\<lparr>assetDisplay := Some (updateNumericScaling ad2)\<rparr>)"
    unfolding s1_def using Some assms by (simp add: assetInput_def Let_def)
  have "assetText (assetInput s) = assetText (updateAmountMirror s1)"
    unfolding r by (simp add: assetText_def split: option.splits)
  moreover have "app_inputMode (assetInput s) = app_inputMode (updateAmountMirror s1)"
    unfolding r by (simp split: option.splits)
  ultimately show ?thesis using updateAmountMirror_asset_text [OF m1] t1 by simp
qed

lemma insertion_step:
  assumes "app_inputMode s = AssetMode"
    and "digitCount (assetText s) \<le> MAX_ASSET_DIGITS"
    and "inputType e = InsertText \<or> inputType e = InsertFromPaste"
  shows "digitCount (assetText (insertion e s)) \<le> MAX_ASSET_DIGITS \<and>
         app_inputMode (insertion e s) = AssetMode \<and>
         (MAX_ASSET_DIGITS < digitCount (assetText s)
            + digitCount (case data e of None \<Rightarrow> [] | Some d \<Rightarrow> d)
          \<longrightarrow> assetDisplay (insertion e s) = assetDisplay s)"
proof (cases "assetDisplay s")
  case None
  then show ?thesis using assms
    by (simp add: insertion_def assetBeforeInput_def assetText_def)
next
  case (Some ad)
  define inc where "inc = (case data e of None \<Rightarrow> [] | Some d \<Rightarrow> d)"
  have cur: "digitCount (content ad) = digitCount (assetText s)"
    using Some by (simp add: assetText_def)
  show ?thesis
  proof (cases "MAX_ASSET_DIGITS < digitCount (content ad) + digitCount inc")
    case True
    then have b: "assetBeforeInput e s =
        (True, if \<not> limitWarned s
               then (showToast (js ''Maximum precision reached'') True s)\<lparr>limitWarned := True\<rparr>
               else s)"
      using Some assms by (auto simp: assetBeforeInput_def Let_def removeDots_sanitize inc_def)
    show ?thesis using b assms(1,2) Some
      by (simp add: insertion_def assetText_def showToast_def)
  next
    case False
    then have b: "assetBeforeInput e s = (False, s)"
      using Some assms by (auto simp: assetBeforeInput_def Let_def removeDots_sanitize inc_def)
    define s1 where "s1 = s\<lparr>assetDisplay := Some (insertAtSelection e ad)\<rparr>"
    have i: "insertion e s = assetInput s1"
      using b Some by (simp add: insertion_def s1_def)
    have m1: "app_inputMode s1 = AssetMode" using assms(1) by (simp add: s1_def)
    have "assetText s1 = take (selectionStart e) (content ad) @ inc
              @ drop (selectionStart e + selectionLength e) (content ad)"
      by (simp add: s1_def assetText_def insertAtSelection_def inc_def)
    then have "digitCount (assetText s1) \<le> digitCount (content ad) + digitCount inc"
      using digitCount_take_drop [of "selectionStart e" "content ad" "selectionLength e"]
      by simp
    then have le: "digitCount (assetText s1) \<le> MAX_ASSET_DIGITS" using False by simp
    show ?thesis using i assetInput_text [OF m1] le False cur by (simp add: inc_def)
  qed
qed

text \<open>
  C4. The claim, like the comments of the listener (the 18th digit is blocked before it
  is inserted), has every insertion that would take the digit count above 17 rejected.
  The listener examines only \<open>insertText\<close> and \<open>insertFromPaste\<close>: with 17 digits in
  the field in asset mode, the digit 8 arriving as composed text is not examined, is
  inserted, and the \<open>input\<close> listener only sanitizes, so the field holds 18 digits.
\<close>

theorem digit_cap_exceeded:
  "app_inputMode fullAssetPage = AssetMode \<and>
   digitCount (assetText fullAssetPage) = 17 \<and>
   digitCount (assetText (insertion composeEight fullAssetPage)) = 18"
proof -
  have m: "app_inputMode fullAssetPage = AssetMode"
    by (simp add: fullAssetPage_def initialPage_def)
  have d: "digitCount (assetText fullAssetPage) = 17"
    by (simp add: fullAssetPage_def initialPage_def assetText_def digitCount_def js_def
                  isDigit_def emptyField_def)
  define s1 where "s1 = fullAssetPage\<lparr>assetDisplay :=
      Some (insertAtSelection composeEight (emptyField\<lparr>content := js ''12345678901234567''\<rparr>))\<rparr>"
  have b: "assetBeforeInput composeEight fullAssetPage = (False, fullAssetPage)"
    by (simp add: assetBeforeInput_def fullAssetPage_def initialPage_def composeEight_def)
  have i: "insertion composeEight fullAssetPage = assetInput s1"
    unfolding insertion_def b s1_def by (simp add: fullAssetPage_def initialPage_def)
  have m1: "app_inputMode s1 = AssetMode" using m by (simp add: s1_def)
  have t: "assetText s1 = js ''123456789012345678''"
    by (simp add: s1_def assetText_def insertAtSelection_def composeEight_def emptyField_def
                  js_def)
  have "digitCount (assetText (assetInput s1)) = digitCount (assetText s1)"
    using assetInput_text [OF m1] by simp
  also have "\<dots> = 18"
    unfolding t by (simp add: digitCount_def js_def isDigit_def)
  finally show ?thesis using m d i by simp
qed

text \<open>
  The two input types the listener does examine. In asset mode, from a field whose digit
  count is at most 17, every run of \<open>insertText\<close> and \<open>insertFromPaste\<close> insertions,
  each replacing any selection, ends with a digit count of at most 17; and such an
  insertion whose incoming digits would take the count above 17 leaves the field
  unchanged.
\<close>

lemma examined_insertions_capped:
  assumes "app_inputMode s = AssetMode"
    and "digitCount (assetText s) \<le> MAX_ASSET_DIGITS"
    and "\<forall>e \<in> set es. inputType e = InsertText \<or> inputType e = InsertFromPaste"
  shows "digitCount (assetText (insertions es s)) \<le> 17 \<and>
         (\<forall>e. (inputType e = InsertText \<or> inputType e = InsertFromPaste) \<and>
               17 < digitCount (assetText s)
                      + digitCount (case data e of None \<Rightarrow> [] | Some d \<Rightarrow> d)
               \<longrightarrow> assetDisplay (insertion e s) = assetDisplay s)"
proof
  have "digitCount (assetText (fold insertion es s)) \<le> MAX_ASSET_DIGITS
        \<and> app_inputMode (fold insertion es s) = AssetMode"
    using assms
  proof (induction es arbitrary: s)
    case Nil
    then show ?case by simp
  next
    case (Cons e es)
    have "inputType e = InsertText \<or> inputType e = InsertFromPaste" using Cons.prems(3) by simp
    then have "digitCount (assetText (insertion e s)) \<le> MAX_ASSET_DIGITS"
      and "app_inputMode (insertion e s) = AssetMode"
      using insertion_step Cons.prems(1,2) by blast+
    then show ?case using Cons.IH [of "insertion e s"] Cons.prems(3) by simp
  qed
  then show "digitCount (assetText (insertions es s)) \<le> 17"
    by (simp add: insertions_def MAX_ASSET_DIGITS_def)
  show "\<forall>e. (inputType e = InsertText \<or> inputType e = InsertFromPaste) \<and>
               17 < digitCount (assetText s)
                      + digitCount (case data e of None \<Rightarrow> [] | Some d \<Rightarrow> d)
               \<longrightarrow> assetDisplay (insertion e s) = assetDisplay s"
    using insertion_step [OF assms(1,2)] by (simp add: MAX_ASSET_DIGITS_def)
qed

text \<open>Scenario 4: 17 digits in the field, the typed key 8 is rejected.\<close>

lemma typed_digit_rejected:
  "app_inputMode fullAssetPage = AssetMode \<and>
   digitCount (assetText fullAssetPage) = 17 \<and>
   digitCount (assetText (insertions [typeEight] fullAssetPage)) \<le> 17 \<and>
   assetDisplay (insertion typeEight fullAssetPage) = assetDisplay fullAssetPage"
proof -
  have m: "app_inputMode fullAssetPage = AssetMode"
    by (simp add: fullAssetPage_def initialPage_def)
  have d: "digitCount (assetText fullAssetPage) = 17"
    by (simp add: fullAssetPage_def initialPage_def assetText_def digitCount_def js_def
                  isDigit_def emptyField_def)
  have c: "digitCount (assetText fullAssetPage) \<le> MAX_ASSET_DIGITS"
    using d by (simp add: MAX_ASSET_DIGITS_def)
  have e: "\<forall>e \<in> set [typeEight]. inputType e = InsertText \<or> inputType e = InsertFromPaste"
    by (simp add: typeEight_def)
  have i: "digitCount (case data typeEight of None \<Rightarrow> [] | Some d \<Rightarrow> d) = 1"
    by (simp add: typeEight_def digitCount_def js_def isDigit_def)
  show ?thesis
    using examined_insertions_capped [OF m c e] m d i by (simp add: typeEight_def)
qed

end
